theory Spec2Isabelle
  imports Complex_Main
begin

section \<open>Conventions\<close>

text \<open>
  The development embeds \<^verbatim>\<open>Main.py\<close>: the ray caster (\<^verbatim>\<open>Car.cast_ray\<close>,
  \<^verbatim>\<open>Car.check_collision\<close>), the construction of the fuzzy rule base
  (\<^verbatim>\<open>Car.setup_fuzzy_control\<close>, \<^verbatim>\<open>Car.setup_distance\<close>), the decision step
  (\<^verbatim>\<open>Car.fuzzy_logic_controller\<close>) and the per-tick \<^verbatim>\<open>Car.update\<close>.

  Python integers are \<open>int\<close>, list indices and counts are \<open>nat\<close>, Python floats are
  read as real numbers. The module constants \<^verbatim>\<open>RAYS\<close> and \<^verbatim>\<open>SPREAD\<close> are
  arguments of the functions that read them, so that statements about every ray count
  can be made; their values in the source are kept as \<open>RAYS\<close> and \<open>SPREAD\<close>.
  Every exception is a value of type \<open>error\<close>, returned in \<open>Inl\<close>.
\<close>

datatype error = ConfigurationError | InputShapeError | IndexError | ZeroDivisionError

definition bind_err :: "error + 'a \<Rightarrow> ('a \<Rightarrow> error + 'b) \<Rightarrow> error + 'b" where
  "bind_err r f = (case r of Inl e \<Rightarrow> Inl e | Inr v \<Rightarrow> f v)"

definition RAYS :: nat where
  "RAYS = 7"

definition SPREAD :: real where
  "SPREAD = 90"

section \<open>The display surface\<close>

text \<open>
  A \<^verbatim>\<open>pygame.Surface\<close> as the ray caster sees it: its size and the colour of each
  pixel. A pixel blocks a ray when its colour is opaque white.
\<close>

type_synonym colour = "nat \<times> nat \<times> nat \<times> nat"

record screen =
  get_width :: int
  get_height :: int
  get_at :: "int \<times> int \<Rightarrow> colour"

definition white :: colour where
  "white = (255, 255, 255, 255)"

definition black :: colour where
  "black = (0, 0, 0, 255)"

section \<open>Ray casting\<close>

text \<open>\<^verbatim>\<open>int(x)\<close> on a float truncates towards zero; \<^verbatim>\<open>math.radians\<close> converts degrees.\<close>

definition py_int :: "real \<Rightarrow> int" where
  "py_int r = (if 0 \<le> r then \<lfloor>r\<rfloor> else \<lceil>r\<rceil>)"

definition radians :: "real \<Rightarrow> real" where
  "radians a = a * pi / 180"

text \<open>
  The pixel sampled at a distance along the ray (lines 84 to 86 of the source; the
  vertical axis of the surface points down).
\<close>

definition sample :: "real \<times> real \<Rightarrow> real \<Rightarrow> int \<Rightarrow> int \<times> int" where
  "sample start_pos angle distance =
     (let dx = real_of_int distance * cos (radians angle);
          dy = real_of_int distance * sin (radians angle)
      in (py_int (fst start_pos + dx), py_int (snd start_pos - dy)))"

definition in_bounds :: "screen \<Rightarrow> int \<times> int \<Rightarrow> bool" where
  "in_bounds scr p =
     (0 \<le> fst p \<and> fst p < get_width scr \<and> 0 \<le> snd p \<and> snd p < get_height scr)"

definition blocked :: "screen \<Rightarrow> int \<times> int \<Rightarrow> bool" where
  "blocked scr p = (get_at scr p = white)"

text \<open>
  The loop \<^verbatim>\<open>for distance in range(max_distance)\<close>, entered at \<open>distance\<close>: a white
  pixel inside the surface returns the distance, a pixel outside the surface breaks
  out of the loop, and the fall-through returns \<open>max_distance\<close>.
\<close>

function cast_ray_loop :: "screen \<Rightarrow> real \<times> real \<Rightarrow> real \<Rightarrow> int \<Rightarrow> int \<Rightarrow> int" where
  "cast_ray_loop scr start_pos angle max_distance distance =
     (if distance < max_distance then
        (if in_bounds scr (sample start_pos angle distance) then
           (if blocked scr (sample start_pos angle distance) then distance
            else cast_ray_loop scr start_pos angle max_distance (distance + 1))
         else max_distance)
      else max_distance)"
  by pat_completeness auto
termination
  by (relation "measure (\<lambda>(scr, start_pos, angle, max_distance, distance).
        nat (max_distance - distance))") auto

declare cast_ray_loop.simps [simp del]

definition cast_ray :: "screen \<Rightarrow> real \<times> real \<Rightarrow> real \<Rightarrow> int \<Rightarrow> int" where
  "cast_ray scr start_pos angle max_distance = cast_ray_loop scr start_pos angle max_distance 0"

text \<open>The default of the parameter \<^verbatim>\<open>max_distance\<close>.\<close>

definition max_distance_default :: int where
  "max_distance_default = 600"

section \<open>The car\<close>

text \<open>
  A \<^verbatim>\<open>pygame.Rect\<close> holds integers; its centre is derived from corner and size.
\<close>

record rect =
  rect_x :: int
  rect_y :: int
  rect_w :: int
  rect_h :: int

definition centerx :: "rect \<Rightarrow> int" where
  "centerx r = rect_x r + rect_w r div 2"

definition centery :: "rect \<Rightarrow> int" where
  "centery r = rect_y r + rect_h r div 2"

definition center :: "rect \<Rightarrow> int \<times> int" where
  "center r = (centerx r, centery r)"

text \<open>
  The operations of pygame that the car calls and whose code is not part of the
  program are parameters: rotating an image, the rectangle of an image placed at a
  centre, drawing a line on the surface, and the conversion applied when a float is
  stored in a coordinate of a rectangle. Images are values of an arbitrary type.
\<close>

record 'img pygame =
  transform_rotate :: "'img \<Rightarrow> real \<Rightarrow> 'img"
  image_get_rect :: "'img \<Rightarrow> int \<times> int \<Rightarrow> rect"
  draw_line :: "screen \<Rightarrow> real \<times> real \<Rightarrow> real \<times> real \<Rightarrow> screen"
  rect_coord :: "real \<Rightarrow> int"

text \<open>The keys read by \<^verbatim>\<open>pygame.key.get_pressed()\<close>.\<close>

record keys =
  K_SPACE :: bool
  K_LEFT :: bool
  K_RIGHT :: bool
  K_UP :: bool
  K_DOWN :: bool

section \<open>Fuzzy variables, rules and the control system\<close>

text \<open>
  The labels of the source are strings; each variable only ever uses the labels below,
  so they are constructors here.
\<close>

datatype dist_label = Close | Medium | Far

datatype steer_label =
  Hard_left | Left | Slight_left | Straight | Slight_right | Right | Hard_right

datatype mf = Triangle real real real

text \<open>
  Modelled from the spec: \<^verbatim>\<open>fuzz.trimf\<close> of scikit-fuzzy, which is not part of the
  program's source. A membership function is an ordered triple \<open>(a, b, c)\<close> with
  \<open>a \<le> b \<le> c\<close>, and a triple that violates the order is a configuration error.
\<close>

definition trimf :: "real list \<Rightarrow> error + mf" where
  "trimf abc =
     (case abc of
        [a, b, c] \<Rightarrow> if a \<le> b \<and> b \<le> c then Inr (Triangle a b c) else Inl ConfigurationError
      | _ \<Rightarrow> Inl ConfigurationError)"

text \<open>
  Modelled from the spec: the value of a triangular membership function, missing with
  scikit-fuzzy. Outside \<open>[a, c]\<close> it is 0, at \<open>b\<close> it is 1, and it is linear on both
  ramps; \<open>a = b\<close> or \<open>b = c\<close> gives a right triangle.
\<close>

fun mf_eval :: "mf \<Rightarrow> real \<Rightarrow> real" where
  "mf_eval (Triangle a b c) x =
     (if x = b then 1
      else if x < a \<or> c < x then 0
      else if x < b then (x - a) / (b - a)
      else (c - x) / (c - b))"

text \<open>
  An input variable (\<^verbatim>\<open>ctrl.Antecedent\<close>) with the bounds of its universe
  \<^verbatim>\<open>np.arange(0, 601, 1)\<close> and its terms; the output variable
  (\<^verbatim>\<open>ctrl.Consequent\<close>) with the sample points of its universe
  \<^verbatim>\<open>np.arange(-90, 91, 1)\<close> and its terms.
\<close>

record antecedent =
  universe_lo :: int
  universe_hi :: int
  terms :: "dist_label \<Rightarrow> mf"

record consequent =
  universe :: "int list"
  out_terms :: "steer_label \<Rightarrow> mf"

text \<open>
  \<^verbatim>\<open>ctrl.Rule(dist[l], self.steering[out])\<close> for the input variable
  \<^verbatim>\<open>distance_i\<close> is \<open>Rule i l out\<close>.
\<close>

datatype rule = Rule nat dist_label steer_label

fun rule_input :: "rule \<Rightarrow> nat" where
  "rule_input (Rule i l out) = i"

fun rule_antecedent :: "rule \<Rightarrow> dist_label" where
  "rule_antecedent (Rule i l out) = l"

fun rule_consequent :: "rule \<Rightarrow> steer_label" where
  "rule_consequent (Rule i l out) = out"

record control_system =
  distances_input :: "antecedent list"
  steering_var :: consequent
  rules :: "rule list"

text \<open>
  \<^verbatim>\<open>ctrl.ControlSystemSimulation\<close>: the control system with the inputs stored by
  \<^verbatim>\<open>input[...] = ...\<close> and the output stored by \<^verbatim>\<open>compute()\<close>. Both stores live
  as long as the car does.
\<close>

record simulation =
  ctrl :: control_system
  sim_input :: "nat \<rightharpoonup> real"
  sim_output :: "real option"

text \<open>\<^verbatim>\<open>Car.setup_distance\<close> (lines 205 to 214).\<close>

definition setup_distance :: "antecedent \<Rightarrow> error + antecedent" where
  "setup_distance distance_variable =
     bind_err (trimf [0, 0, 100]) (\<lambda>close.
     bind_err (trimf [50, 100, 400]) (\<lambda>medium.
     bind_err (trimf [300, 600, 600]) (\<lambda>far.
       Inr (distance_variable\<lparr>terms :=
              (\<lambda>l. case l of Close \<Rightarrow> close | Medium \<Rightarrow> medium | Far \<Rightarrow> far)\<rparr>))))"

text \<open>The loop \<^verbatim>\<open>for dist in self.distances_input: self.setup_distance(dist)\<close>.\<close>

fun setup_distances :: "antecedent list \<Rightarrow> error + antecedent list" where
  "setup_distances [] = Inr []"
| "setup_distances (v # rest) =
     bind_err (setup_distance v) (\<lambda>d.
     bind_err (setup_distances rest) (\<lambda>ds. Inr (d # ds)))"

text \<open>The seven terms of the steering variable (lines 164 to 170).\<close>

definition setup_steering :: "error + consequent" where
  "setup_steering =
     bind_err (trimf [-90, -60, -30]) (\<lambda>hard_left.
     bind_err (trimf [-45, -30, 0]) (\<lambda>left.
     bind_err (trimf [-15, 0, 15]) (\<lambda>slight_left.
     bind_err (trimf [-10, 0, 10]) (\<lambda>straight.
     bind_err (trimf [-15, 0, 15]) (\<lambda>slight_right.
     bind_err (trimf [0, 30, 45]) (\<lambda>right.
     bind_err (trimf [30, 60, 90]) (\<lambda>hard_right.
       Inr \<lparr>universe = [-90..90],
            out_terms = (\<lambda>l. case l of
                Hard_left \<Rightarrow> hard_left | Left \<Rightarrow> left | Slight_left \<Rightarrow> slight_left
              | Straight \<Rightarrow> straight | Slight_right \<Rightarrow> slight_right | Right \<Rightarrow> right
              | Hard_right \<Rightarrow> hard_right)\<rparr>)))))))"

text \<open>
  The body of the loop over \<^verbatim>\<open>enumerate(self.distances_input)\<close> (lines 175 to 183):
  the rules appended for ray \<open>i\<close> when there are \<open>rays\<close> rays.
\<close>

definition angle_adjustment :: "nat \<Rightarrow> nat \<Rightarrow> int" where
  "angle_adjustment rays i = (int i - int (rays div 2)) * 15"

definition rules_for_ray :: "nat \<Rightarrow> nat \<Rightarrow> rule list" where
  "rules_for_ray rays i =
     (if i < rays div 2 then [Rule i Close Right, Rule i Medium Slight_right]
      else if i > rays div 2 then [Rule i Close Left, Rule i Medium Slight_left]
      else [Rule i Close (if angle_adjustment rays i < 0 then Hard_left else Hard_right)])"

definition build_rules :: "nat \<Rightarrow> rule list" where
  "build_rules rays = concat (map (rules_for_ray rays) [0..<rays])"

text \<open>
  \<^verbatim>\<open>Car.setup_fuzzy_control\<close> (lines 151 to 186), for \<open>rays\<close> rays. The source performs
  no check of its own; the only failures are those of the library calls. A new input
  variable has no terms yet: its table holds a placeholder until \<open>setup_distance\<close> fills
  it.
\<close>

definition setup_fuzzy_control :: "nat \<Rightarrow> error + simulation" where
  "setup_fuzzy_control rays =
     bind_err (setup_distances
        (replicate rays \<lparr>universe_lo = 0, universe_hi = 600, terms = (\<lambda>l. Triangle 0 0 0)\<rparr>))
       (\<lambda>inputs.
     bind_err setup_steering (\<lambda>steering_variable.
       Inr \<lparr>ctrl = \<lparr>distances_input = inputs, steering_var = steering_variable,
                    rules = build_rules rays\<rparr>,
            sim_input = Map.empty, sim_output = None\<rparr>))"

section \<open>Inference\<close>

text \<open>
  Modelled from the spec: the inference of scikit-fuzzy behind
  \<^verbatim>\<open>ControlSystemSimulation.input\<close> and \<^verbatim>\<open>ControlSystemSimulation.compute\<close>, which
  is not part of the program's source. The definitions of this section follow the
  evaluation described for the inference engine: a crisp input is clamped to the bounds
  of its universe, the firing strength of a rule is the degree of the input in the
  rule's antecedent label, the effective strength of an output label is the maximum
  over the rules that conclude it, the aggregated set is the pointwise maximum of the
  output terms clipped at their effective strengths, and the crisp output is the
  centroid over the sampled output universe, or 0 when the aggregated set is empty
  everywhere.
\<close>

definition clip :: "int \<Rightarrow> int \<Rightarrow> real \<Rightarrow> real" where
  "clip lo hi v = max (real_of_int lo) (min (real_of_int hi) v)"

definition fuzzify :: "antecedent \<Rightarrow> dist_label \<Rightarrow> real \<Rightarrow> real" where
  "fuzzify var l v = mf_eval (terms var l) v"

definition firing_strength :: "control_system \<Rightarrow> (nat \<Rightarrow> real) \<Rightarrow> rule \<Rightarrow> real" where
  "firing_strength sys crisp r =
     fuzzify (distances_input sys ! rule_input r) (rule_antecedent r) (crisp (rule_input r))"

definition effective_strength :: "control_system \<Rightarrow> (nat \<Rightarrow> real) \<Rightarrow> steer_label \<Rightarrow> real" where
  "effective_strength sys crisp out =
     fold max (map (firing_strength sys crisp)
                 (filter (\<lambda>r. rule_consequent r = out) (rules sys))) 0"

definition steer_labels :: "steer_label list" where
  "steer_labels = [Hard_left, Left, Slight_left, Straight, Slight_right, Right, Hard_right]"

definition aggregated :: "control_system \<Rightarrow> (nat \<Rightarrow> real) \<Rightarrow> real \<Rightarrow> real" where
  "aggregated sys crisp x =
     fold max (map (\<lambda>l. min (effective_strength sys crisp l)
                            (mf_eval (out_terms (steering_var sys) l) x)) steer_labels) 0"

definition defuzzify :: "control_system \<Rightarrow> (nat \<Rightarrow> real) \<Rightarrow> real" where
  "defuzzify sys crisp =
     (let xs = map real_of_int (universe (steering_var sys));
          mu = aggregated sys crisp
      in if list_all (\<lambda>x. mu x = 0) xs then 0
         else sum_list (map (\<lambda>x. x * mu x) xs) / sum_list (map mu xs))"

text \<open>
  Modelled from the spec: \<^verbatim>\<open>self.steering.input[f'distance_{i}'] = dist\<close>. A value
  for an input the system does not have is an input-shape error; an accepted value is
  stored clamped to the universe of its variable.
\<close>

definition set_input :: "simulation \<Rightarrow> nat \<Rightarrow> int \<Rightarrow> error + simulation" where
  "set_input sim i v =
     (if i < length (distances_input (ctrl sim)) then
        (let var = distances_input (ctrl sim) ! i
         in Inr (sim\<lparr>sim_input := (sim_input sim)
                  (i \<mapsto> clip (universe_lo var) (universe_hi var) (real_of_int v))\<rparr>))
      else Inl InputShapeError)"

text \<open>
  Modelled from the spec: \<^verbatim>\<open>self.steering.compute()\<close>. Every input of the system
  must hold a value; the output store then receives the defuzzified value.
\<close>

definition compute :: "simulation \<Rightarrow> error + simulation" where
  "compute sim =
     (if list_all (\<lambda>i. sim_input sim i \<noteq> None) [0..<length (distances_input (ctrl sim))] then
        Inr (sim\<lparr>sim_output := Some (defuzzify (ctrl sim) (\<lambda>i. the (sim_input sim i)))\<rparr>)
      else Inl InputShapeError)"

section \<open>The car and its operations\<close>

text \<open>
  The attributes of \<^verbatim>\<open>Car\<close>. The attribute \<^verbatim>\<open>image\<close> is \<open>image_sprite\<close> here; the
  input variables and the control system are reached through the simulation
  \<open>steering\<close>.
\<close>

record 'img car =
  original_image :: 'img
  image_sprite :: 'img
  rect :: rect
  speed :: int
  angle :: real
  autopilot :: bool
  distances :: "int list"
  steering :: simulation

text \<open>\<^verbatim>\<open>Car.__init__\<close> (lines 55 to 66), for \<open>rays\<close> rays.\<close>

definition car_init :: "'img pygame \<Rightarrow> nat \<Rightarrow> 'img \<Rightarrow> int \<times> int \<Rightarrow> error + 'img car" where
  "car_init pg rays img initial_position =
     bind_err (setup_fuzzy_control rays) (\<lambda>sim.
       Inr \<lparr>original_image = img, image_sprite = img,
            rect = image_get_rect pg img initial_position,
            speed = 10, angle = 0, autopilot = False,
            distances = replicate rays 0, steering = sim\<rparr>)"

text \<open>
  \<^verbatim>\<open>Car.check_collision\<close> (lines 95 to 111). The angle of ray \<open>i\<close> divides by
  \<^verbatim>\<open>RAYS - 1\<close>; the assignment \<^verbatim>\<open>self.distances[i] = distance\<close> needs the index to
  exist; the line drawn for one ray is on the surface when the next ray is cast.
\<close>

definition ray_angle :: "nat \<Rightarrow> real \<Rightarrow> real \<Rightarrow> nat \<Rightarrow> error + real" where
  "ray_angle rays spread heading i =
     (if int rays - 1 = 0 then Inl ZeroDivisionError
      else Inr (heading - spread / 2 + (spread / real_of_int (int rays - 1)) * real i))"

definition front_center :: "'img car \<Rightarrow> real \<times> real" where
  "front_center c =
     (real_of_int (centerx (rect c)) + real_of_int (speed c) * cos (radians (angle c)),
      real_of_int (centery (rect c)) - real_of_int (speed c) * sin (radians (angle c)))"

definition check_ray ::
  "'img pygame \<Rightarrow> nat \<Rightarrow> real \<Rightarrow> nat \<Rightarrow> screen \<times> 'img car \<Rightarrow> error + screen \<times> 'img car" where
  "check_ray pg rays spread i sc =
     (let scr = fst sc; c = snd sc
      in bind_err (ray_angle rays spread (angle c) i) (\<lambda>a.
           let fc = front_center c;
               distance = cast_ray scr fc a max_distance_default
           in if i < length (distances c) then
                (let end_x = fst fc + real_of_int distance * cos (radians a);
                     end_y = snd fc - real_of_int distance * sin (radians a)
                 in Inr (draw_line pg scr fc (end_x, end_y),
                         c\<lparr>distances := (distances c)[i := distance]\<rparr>))
              else Inl IndexError))"

fun check_collision_loop ::
  "'img pygame \<Rightarrow> nat \<Rightarrow> real \<Rightarrow> nat list \<Rightarrow> screen \<times> 'img car \<Rightarrow> error + screen \<times> 'img car" where
  "check_collision_loop pg rays spread [] sc = Inr sc"
| "check_collision_loop pg rays spread (i # rest) sc =
     bind_err (check_ray pg rays spread i sc) (check_collision_loop pg rays spread rest)"

definition check_collision ::
  "'img pygame \<Rightarrow> nat \<Rightarrow> real \<Rightarrow> screen \<Rightarrow> 'img car \<Rightarrow> error + screen \<times> 'img car" where
  "check_collision pg rays spread scr c = check_collision_loop pg rays spread [0..<rays] (scr, c)"

text \<open>
  \<^verbatim>\<open>Car.fuzzy_logic_controller\<close> (lines 188 to 203): every stored distance is written
  to the input of its index, the simulation computes, and the output is returned with
  the stored speed.
\<close>

fun set_inputs :: "simulation \<Rightarrow> (nat \<times> int) list \<Rightarrow> error + simulation" where
  "set_inputs sim [] = Inr sim"
| "set_inputs sim ((i, v) # rest) = bind_err (set_input sim i v) (\<lambda>sim'. set_inputs sim' rest)"

definition fuzzy_logic_controller :: "'img car \<Rightarrow> error + (real \<times> int) \<times> 'img car" where
  "fuzzy_logic_controller c =
     bind_err (set_inputs (steering c) (enumerate 0 (distances c))) (\<lambda>sim1.
     bind_err (compute sim1) (\<lambda>sim2.
       case sim_output sim2 of
         None \<Rightarrow> Inl InputShapeError
       | Some steering_adjustment \<Rightarrow>
           Inr ((steering_adjustment, speed c), c\<lparr>steering := sim2\<rparr>)))"

text \<open>
  \<^verbatim>\<open>Car.update\<close> (lines 113 to 149), given the keys pressed and the global surface.
\<close>

definition rect_move :: "'img pygame \<Rightarrow> rect \<Rightarrow> real \<Rightarrow> real \<Rightarrow> rect" where
  "rect_move pg r dx dy =
     r\<lparr>rect_x := rect_coord pg (real_of_int (rect_x r) + dx),
       rect_y := rect_coord pg (real_of_int (rect_y r) + dy)\<rparr>"

definition redraw :: "'img pygame \<Rightarrow> 'img car \<Rightarrow> 'img car" where
  "redraw pg c =
     (let img = transform_rotate pg (original_image c) (angle c)
      in c\<lparr>image_sprite := img, rect := image_get_rect pg img (center (rect c))\<rparr>)"

definition update_manual :: "'img pygame \<Rightarrow> keys \<Rightarrow> 'img car \<Rightarrow> 'img car" where
  "update_manual pg ks c =
     (let c1 = (if K_LEFT ks then c\<lparr>angle := angle c + 5\<rparr> else c);
          c2 = (if K_RIGHT ks then c1\<lparr>angle := angle c1 - 5\<rparr> else c1);
          c3 = redraw pg c2;
          c4 = (if K_UP ks
                then c3\<lparr>rect := rect_move pg (rect c3)
                       (real_of_int (speed c3) * cos (radians (angle c3)))
                       (- (real_of_int (speed c3) * sin (radians (angle c3))))\<rparr>
                else c3);
          c5 = (if K_DOWN ks
                then c4\<lparr>rect := rect_move pg (rect c4)
                       (- (real_of_int (speed c4) * cos (radians (angle c4))))
                       (real_of_int (speed c4) * sin (radians (angle c4)))\<rparr>
                else c4)
      in c5)"

definition update_autopilot ::
  "'img pygame \<Rightarrow> nat \<Rightarrow> real \<Rightarrow> screen \<Rightarrow> 'img car \<Rightarrow> error + screen \<times> 'img car" where
  "update_autopilot pg rays spread scr c =
     bind_err (check_collision pg rays spread scr c) (\<lambda>sc.
     bind_err (fuzzy_logic_controller (snd sc)) (\<lambda>res.
       let fuzzy_angle = fst (fst res); fuzzy_speed = snd (fst res); c1 = snd res;
           c2 = redraw pg (c1\<lparr>angle := angle c1 + fuzzy_angle\<rparr>);
           c3 = c2\<lparr>rect := rect_move pg (rect c2)
                  (real_of_int fuzzy_speed * cos (radians (angle c2)))
                  (- (real_of_int fuzzy_speed * sin (radians (angle c2))))\<rparr>
       in Inr (fst sc, c3)))"

definition update ::
  "'img pygame \<Rightarrow> nat \<Rightarrow> real \<Rightarrow> keys \<Rightarrow> screen \<Rightarrow> 'img car \<Rightarrow> error + screen \<times> 'img car" where
  "update pg rays spread ks scr c =
     (let c1 = (if K_SPACE ks then c\<lparr>autopilot := \<not> autopilot c\<rparr> else c)
      in if \<not> autopilot c1 then Inr (scr, update_manual pg ks c1)
         else update_autopilot pg rays spread scr c1)"

section \<open>Auxiliary notions for the statements\<close>

text \<open>
  Every pixel sampled at the distances \<open>0, \<dots>, d - 1\<close> lies inside the surface and does
  not block the ray.
\<close>

definition clear_before :: "screen \<Rightarrow> real \<times> real \<Rightarrow> real \<Rightarrow> int \<Rightarrow> bool" where
  "clear_before scr start_pos a d =
     list_all (\<lambda>k. in_bounds scr (sample start_pos a k) \<and> \<not> blocked scr (sample start_pos a k))
       [0..d - 1]"

text \<open>Two small surfaces: one without any white pixel, one with a white column at \<open>x = 3\<close>.\<close>

definition dark_screen :: screen where
  "dark_screen = \<lparr>get_width = 10, get_height = 10, get_at = (\<lambda>p. black)\<rparr>"

definition wall_screen :: screen where
  "wall_screen = \<lparr>get_width = 10, get_height = 10,
                   get_at = (\<lambda>p. if fst p = 3 then white else black)\<rparr>"

text \<open>The term tables that the setup stores, and the control system it builds.\<close>

definition distance_terms :: "dist_label \<Rightarrow> mf" where
  "distance_terms l = (case l of Close \<Rightarrow> Triangle 0 0 100 | Medium \<Rightarrow> Triangle 50 100 400
                       | Far \<Rightarrow> Triangle 300 600 600)"

definition steering_terms :: "steer_label \<Rightarrow> mf" where
  "steering_terms l = (case l of
       Hard_left \<Rightarrow> Triangle (-90) (-60) (-30) | Left \<Rightarrow> Triangle (-45) (-30) 0
     | Slight_left \<Rightarrow> Triangle (-15) 0 15 | Straight \<Rightarrow> Triangle (-10) 0 10
     | Slight_right \<Rightarrow> Triangle (-15) 0 15 | Right \<Rightarrow> Triangle 0 30 45
     | Hard_right \<Rightarrow> Triangle 30 60 90)"

definition fuzzy_system :: "nat \<Rightarrow> control_system" where
  "fuzzy_system rays =
     \<lparr>distances_input =
        replicate rays \<lparr>universe_lo = 0, universe_hi = 600, terms = distance_terms\<rparr>,
      steering_var = \<lparr>universe = [-90..90], out_terms = steering_terms\<rparr>,
      rules = build_rules rays\<rparr>"

text \<open>The rules of a simulation whose antecedent is on ray \<open>i\<close>, in the order of the rule base.\<close>

definition rules_of_ray :: "simulation \<Rightarrow> nat \<Rightarrow> rule list" where
  "rules_of_ray sim i = filter (\<lambda>r. rule_input r = i) (rules (ctrl sim))"

text \<open>
  The crisp value that the simulation holds for input \<open>i\<close> once the distances \<open>ds\<close> have
  been written to it.
\<close>

definition crisp_inputs :: "control_system \<Rightarrow> int list \<Rightarrow> nat \<Rightarrow> real" where
  "crisp_inputs sys ds i =
     clip (universe_lo (distances_input sys ! i)) (universe_hi (distances_input sys ! i))
       (real_of_int (ds ! i))"

text \<open>
  The distances of a car are well-formed for \<open>rays\<close> rays: one entry per ray, each between
  0 and the maximum range.
\<close>

definition distances_ok :: "nat \<Rightarrow> 'img car \<Rightarrow> bool" where
  "distances_ok rays c =
     (length (distances c) = rays
      \<and> list_all (\<lambda>d. 0 \<le> d \<and> d \<le> max_distance_default) (distances c))"

text \<open>The distance vector of an obstacle close in front of the car only.\<close>

definition front_distances :: "int list" where
  "front_distances = [600, 600, 600, 0, 600, 600, 600]"

text \<open>
  A concrete environment, car and key state on which the statements are instantiated:
  images are trivial, nothing is drawn, and the car is the one that \<^verbatim>\<open>Car.__init__\<close>
  builds for seven rays at the centre of a window of 1000 by 800 pixels.
\<close>

definition plain_pygame :: "unit pygame" where
  "plain_pygame =
     \<lparr>transform_rotate = (\<lambda>img a. img),
      image_get_rect = (\<lambda>img p. \<lparr>rect_x = fst p - 40, rect_y = snd p - 40, rect_w = 80, rect_h = 80\<rparr>),
      draw_line = (\<lambda>scr p q. scr),
      rect_coord = py_int\<rparr>"

definition start_car :: "unit car" where
  "start_car =
     \<lparr>original_image = (), image_sprite = (),
      rect = \<lparr>rect_x = 460, rect_y = 360, rect_w = 80, rect_h = 80\<rparr>,
      speed = 10, angle = 0, autopilot = False,
      distances = [0, 0, 0, 0, 0, 0, 0],
      steering = \<lparr>ctrl = fuzzy_system 7, sim_input = Map.empty, sim_output = None\<rparr>\<rparr>"

definition front_car :: "unit car" where
  "front_car = start_car\<lparr>distances := front_distances\<rparr>"

definition space_pressed :: keys where
  "space_pressed = \<lparr>K_SPACE = True, K_LEFT = False, K_RIGHT = False, K_UP = False, K_DOWN = False\<rparr>"

section \<open>Properties of the ray caster\<close>

lemma cast_ray_loop_hit:
  assumes "d0 \<le> d" and "d < R"
    and "\<forall>k. d0 \<le> k \<and> k < d \<longrightarrow> in_bounds scr (sample s a k) \<and> \<not> blocked scr (sample s a k)"
    and "in_bounds scr (sample s a d)" and "blocked scr (sample s a d)"
  shows "cast_ray_loop scr s a R d0 = d"
  using assms
proof (induction scr s a R d0 rule: cast_ray_loop.induct)
  case (1 scr s a R d0)
  show ?case
  proof (cases "d0 = d")
    case True
    with "1.prems" show ?thesis
      by (simp add: cast_ray_loop.simps)
  next
    case False
    with "1.prems" have lt: "d0 < d" by simp
    with "1.prems" have here: "in_bounds scr (sample s a d0)" "\<not> blocked scr (sample s a d0)"
      by auto
    from lt "1.prems" have lR: "d0 < R" by simp
    have "cast_ray_loop scr s a R (d0 + 1) = d"
      using "1.IH" [OF lR here(1) here(2)] lt "1.prems" by auto
    with lR here show ?thesis
      by (simp add: cast_ray_loop.simps [of scr s a R d0])
  qed
qed

lemma cast_ray_loop_exit:
  assumes "d0 \<le> d" and "d < R"
    and "\<forall>k. d0 \<le> k \<and> k < d \<longrightarrow> in_bounds scr (sample s a k) \<and> \<not> blocked scr (sample s a k)"
    and "\<not> in_bounds scr (sample s a d)"
  shows "cast_ray_loop scr s a R d0 = R"
  using assms
proof (induction scr s a R d0 rule: cast_ray_loop.induct)
  case (1 scr s a R d0)
  show ?case
  proof (cases "d0 = d")
    case True
    with "1.prems" show ?thesis
      by (simp add: cast_ray_loop.simps)
  next
    case False
    with "1.prems" have lt: "d0 < d" by simp
    with "1.prems" have here: "in_bounds scr (sample s a d0)" "\<not> blocked scr (sample s a d0)"
      by auto
    from lt "1.prems" have lR: "d0 < R" by simp
    have "cast_ray_loop scr s a R (d0 + 1) = R"
      using "1.IH" [OF lR here(1) here(2)] lt "1.prems" by auto
    with lR here show ?thesis
      by (simp add: cast_ray_loop.simps [of scr s a R d0])
  qed
qed

lemma cast_ray_loop_clear:
  assumes "\<forall>k. d0 \<le> k \<and> k < R \<longrightarrow> in_bounds scr (sample s a k) \<and> \<not> blocked scr (sample s a k)"
  shows "cast_ray_loop scr s a R d0 = R"
  using assms
proof (induction scr s a R d0 rule: cast_ray_loop.induct)
  case (1 scr s a R d0)
  show ?case
  proof (cases "d0 < R")
    case False
    then show ?thesis
      by (simp add: cast_ray_loop.simps)
  next
    case True
    with "1.prems" have here: "in_bounds scr (sample s a d0)" "\<not> blocked scr (sample s a d0)"
      by auto
    have "cast_ray_loop scr s a R (d0 + 1) = R"
      using "1.IH" [OF True here(1) here(2)] "1.prems" by auto
    with True here show ?thesis
      by (simp add: cast_ray_loop.simps [of scr s a R d0])
  qed
qed

lemma cast_ray_loop_range:
  assumes "d0 \<le> R"
  shows "d0 \<le> cast_ray_loop scr s a R d0 \<and> cast_ray_loop scr s a R d0 \<le> R"
  using assms
proof (induction scr s a R d0 rule: cast_ray_loop.induct)
  case (1 scr s a R d0)
  show ?case
  proof (cases "d0 < R \<and> in_bounds scr (sample s a d0) \<and> \<not> blocked scr (sample s a d0)")
    case True
    then have "d0 + 1 \<le> cast_ray_loop scr s a R (d0 + 1) \<and> cast_ray_loop scr s a R (d0 + 1) \<le> R"
      using "1.IH" by simp
    with True show ?thesis
      by (simp add: cast_ray_loop.simps [of scr s a R d0])
  next
    case False
    with "1.prems" show ?thesis
      by (auto simp add: cast_ray_loop.simps [of scr s a R d0])
  qed
qed

lemma cast_ray_range:
  "0 \<le> R \<Longrightarrow> 0 \<le> cast_ray scr s a R \<and> cast_ray scr s a R \<le> R"
  unfolding cast_ray_def by (rule cast_ray_loop_range)

lemma sample_at_zero: "sample (x, y) a 0 = (py_int x, py_int y)"
  by (simp add: sample_def)

lemma sample_heading_zero: "sample (real_of_int x, real_of_int y) 0 d = (x + d, y)"
proof -
  have "py_int (real_of_int x + real_of_int d) = x + d"
    unfolding py_int_def by (metis floor_of_int ceiling_of_int of_int_add)
  moreover have "py_int (real_of_int y) = y"
    unfolding py_int_def by simp
  ultimately show ?thesis
    by (simp add: sample_def radians_def)
qed

lemma clear_before_iff:
  "clear_before scr s a d \<longleftrightarrow>
     (\<forall>k. 0 \<le> k \<and> k < d \<longrightarrow> in_bounds scr (sample s a k) \<and> \<not> blocked scr (sample s a k))"
  unfolding clear_before_def list_all_iff by auto

text \<open>
  Claim C3. For every start point, angle and surface, the ray caster samples the points
  at the distances \<open>0, 1, 2, \<dots>\<close> below the maximum range \<open>R\<close>. It returns the first
  distance whose sampled point is blocked, provided all earlier samples were inside the
  surface; it returns \<open>R\<close> when a sample leaves the surface before any hit, and when
  no sample below \<open>R\<close> is blocked.
\<close>

theorem cast_ray_march:
  "(\<forall>d. 0 \<le> d \<and> d < R \<and> clear_before scr s a d
        \<and> in_bounds scr (sample s a d) \<and> blocked scr (sample s a d)
        \<longrightarrow> cast_ray scr s a R = d)
   \<and> (\<forall>d. 0 \<le> d \<and> d < R \<and> clear_before scr s a d \<and> \<not> in_bounds scr (sample s a d)
        \<longrightarrow> cast_ray scr s a R = R)
   \<and> (clear_before scr s a R \<longrightarrow> cast_ray scr s a R = R)"
proof (intro conjI allI impI)
  fix d
  assume h: "0 \<le> d \<and> d < R \<and> clear_before scr s a d
        \<and> in_bounds scr (sample s a d) \<and> blocked scr (sample s a d)"
  then have "\<forall>k. 0 \<le> k \<and> k < d \<longrightarrow> in_bounds scr (sample s a k) \<and> \<not> blocked scr (sample s a k)"
    by (simp add: clear_before_iff)
  with h show "cast_ray scr s a R = d"
    unfolding cast_ray_def by (intro cast_ray_loop_hit) auto
next
  fix d
  assume h: "0 \<le> d \<and> d < R \<and> clear_before scr s a d \<and> \<not> in_bounds scr (sample s a d)"
  then have "\<forall>k. 0 \<le> k \<and> k < d \<longrightarrow> in_bounds scr (sample s a k) \<and> \<not> blocked scr (sample s a k)"
    by (simp add: clear_before_iff)
  with h show "cast_ray scr s a R = R"
    unfolding cast_ray_def by (intro cast_ray_loop_exit [where d = d]) auto
next
  assume "clear_before scr s a R"
  then have "\<forall>k. 0 \<le> k \<and> k < R \<longrightarrow> in_bounds scr (sample s a k) \<and> \<not> blocked scr (sample s a k)"
    by (simp add: clear_before_iff)
  then show "cast_ray scr s a R = R"
    unfolding cast_ray_def by (rule cast_ray_loop_clear)
qed

lemma sample_origin_heading_zero: "sample (0, 0) 0 d = (d, 0)"
  using sample_heading_zero [of 0 0 d] by simp

theorem cast_ray_march_witness:
  "cast_ray wall_screen (0, 0) 0 600 = 3
   \<and> cast_ray dark_screen (0, 0) 0 600 = 600
   \<and> cast_ray dark_screen (0, 0) 0 5 = 5"
proof -
  have a: "clear_before wall_screen (0, 0) 0 3"
    by (auto simp add: clear_before_iff sample_origin_heading_zero in_bounds_def blocked_def
        wall_screen_def white_def black_def)
  have b: "in_bounds wall_screen (sample (0, 0) 0 3) \<and> blocked wall_screen (sample (0, 0) 0 3)"
    by (simp add: sample_origin_heading_zero in_bounds_def blocked_def wall_screen_def)
  have c: "clear_before dark_screen (0, 0) 0 10"
    by (auto simp add: clear_before_iff sample_origin_heading_zero in_bounds_def blocked_def
        dark_screen_def white_def black_def)
  have d: "\<not> in_bounds dark_screen (sample (0, 0) 0 10)"
    by (simp add: sample_origin_heading_zero in_bounds_def dark_screen_def)
  have e: "clear_before dark_screen (0, 0) 0 5"
    by (auto simp add: clear_before_iff sample_origin_heading_zero in_bounds_def blocked_def
        dark_screen_def white_def black_def)
  from cast_ray_march [of 600 wall_screen "(0, 0)" 0] a b
  have "cast_ray wall_screen (0, 0) 0 600 = 3" by simp
  moreover from cast_ray_march [of 600 dark_screen "(0, 0)" 0] c d
  have "cast_ray dark_screen (0, 0) 0 600 = 600" by force
  moreover from cast_ray_march [of 5 dark_screen "(0, 0)" 0] e
  have "cast_ray dark_screen (0, 0) 0 5 = 5" by simp
  ultimately show ?thesis by simp
qed

text \<open>
  Claim C10. When the start point, truncated to a pixel, lies inside the surface and is
  blocked, the ray caster returns 0 for every angle and every non-negative maximum
  range: the first sample is taken at distance 0.
\<close>

theorem cast_ray_blocked_start:
  assumes "0 \<le> R"
    and "in_bounds scr (py_int x, py_int y)"
    and "blocked scr (py_int x, py_int y)"
  shows "cast_ray scr (x, y) a R = 0"
proof (cases "R = 0")
  case True
  then show ?thesis
    by (simp add: cast_ray_def cast_ray_loop.simps)
next
  case False
  with assms show ?thesis
    by (simp add: cast_ray_def cast_ray_loop.simps [of scr "(x, y)" a R 0] sample_at_zero)
qed

theorem cast_ray_blocked_start_witness:
  "(0::int) \<le> 600 \<and> in_bounds wall_screen (py_int 3.5, py_int 2.25)
   \<and> blocked wall_screen (py_int 3.5, py_int 2.25)
   \<and> cast_ray wall_screen (3.5, 2.25) 30 600 = 0"
proof -
  have f: "py_int (7 / 2) = 3" "py_int (9 / 4) = 2"
    unfolding py_int_def by simp_all
  have i: "in_bounds wall_screen (py_int 3.5, py_int 2.25)"
    by (simp add: f in_bounds_def wall_screen_def)
  have b: "blocked wall_screen (py_int 3.5, py_int 2.25)"
    by (simp add: f blocked_def wall_screen_def)
  from cast_ray_blocked_start [OF _ i b, of 600 30] i b show ?thesis by simp
qed

section \<open>Properties of the rule base\<close>

lemma setup_distance_eq:
  "setup_distance v = Inr (v\<lparr>terms := distance_terms\<rparr>)"
proof -
  have "(\<lambda>l. case l of Close \<Rightarrow> Triangle 0 0 100 | Medium \<Rightarrow> Triangle 50 100 400
          | Far \<Rightarrow> Triangle 300 600 600) = distance_terms"
    by (rule ext) (simp add: distance_terms_def)
  then show ?thesis
    by (simp add: setup_distance_def trimf_def bind_err_def)
qed

lemma setup_distances_eq:
  "setup_distances vs = Inr (map (\<lambda>v. v\<lparr>terms := distance_terms\<rparr>) vs)"
  by (induction vs) (simp_all add: setup_distance_eq bind_err_def)

lemma setup_steering_eq:
  "setup_steering = Inr \<lparr>universe = [-90..90], out_terms = steering_terms\<rparr>"
proof -
  have "(\<lambda>l. case l of
       Hard_left \<Rightarrow> Triangle (-90) (-60) (-30) | Left \<Rightarrow> Triangle (-45) (-30) 0
     | Slight_left \<Rightarrow> Triangle (-15) 0 15 | Straight \<Rightarrow> Triangle (-10) 0 10
     | Slight_right \<Rightarrow> Triangle (-15) 0 15 | Right \<Rightarrow> Triangle 0 30 45
     | Hard_right \<Rightarrow> Triangle 30 60 90) = steering_terms"
    by (rule ext) (simp add: steering_terms_def)
  then show ?thesis
    by (simp add: setup_steering_def trimf_def bind_err_def)
qed

lemma setup_fuzzy_control_eq:
  "setup_fuzzy_control rays =
     Inr \<lparr>ctrl = fuzzy_system rays, sim_input = Map.empty, sim_output = None\<rparr>"
  by (simp add: setup_fuzzy_control_def setup_distances_eq setup_steering_eq bind_err_def
      fuzzy_system_def)

lemma rule_input_rules_for_ray:
  "r \<in> set (rules_for_ray rays j) \<Longrightarrow> rule_input r = j"
  by (auto simp add: rules_for_ray_def split: if_splits)

lemma filter_rules_for_ray:
  "filter (\<lambda>r. rule_input r = i) (rules_for_ray rays j) =
     (if i = j then rules_for_ray rays j else [])"
  by (auto simp add: rules_for_ray_def)

lemma filter_concat_rules:
  "filter (\<lambda>r. rule_input r = i) (concat (map (rules_for_ray rays) [0..<n])) =
     (if i < n then rules_for_ray rays i else [])"
proof (induction n)
  case 0
  show ?case by simp
next
  case (Suc n)
  then show ?case
    by (simp add: filter_rules_for_ray)
qed

lemma filter_build_rules:
  "filter (\<lambda>r. rule_input r = i) (build_rules rays) =
     (if i < rays then rules_for_ray rays i else [])"
  unfolding build_rules_def by (rule filter_concat_rules)

lemma build_rules_no_far:
  "r \<in> set (build_rules rays) \<Longrightarrow> rule_antecedent r \<noteq> Far"
  by (auto simp add: build_rules_def rules_for_ray_def split: if_splits)

lemma build_rules_7:
  "build_rules 7 =
     [Rule 0 Close Right, Rule 0 Medium Slight_right,
      Rule 1 Close Right, Rule 1 Medium Slight_right,
      Rule 2 Close Right, Rule 2 Medium Slight_right,
      Rule 3 Close Hard_right,
      Rule 4 Close Left, Rule 4 Medium Slight_left,
      Rule 5 Close Left, Rule 5 Medium Slight_left,
      Rule 6 Close Left, Rule 6 Medium Slight_left]"
  by code_simp

text \<open>
  Claim C2. For every positive ray count the setup succeeds, and the only rule whose
  antecedent is on the center ray (index \<open>rays div 2\<close>) is \<open>close \<rightarrow> hard_right\<close>: the
  selector \<open>(i - center) * 15\<close> is 0 there, and 0 is not below 0.
\<close>

theorem center_ray_rule:
  assumes "0 < rays"
  shows "\<exists>sim. setup_fuzzy_control rays = Inr sim
           \<and> angle_adjustment rays (rays div 2) = 0
           \<and> rules_of_ray sim (rays div 2) = [Rule (rays div 2) Close Hard_right]"
proof -
  from assms have "rays div 2 < rays" by simp
  then have "filter (\<lambda>r. rule_input r = rays div 2) (build_rules rays)
               = [Rule (rays div 2) Close Hard_right]"
    by (simp add: filter_build_rules rules_for_ray_def angle_adjustment_def)
  then show ?thesis
    by (simp add: setup_fuzzy_control_eq rules_of_ray_def fuzzy_system_def angle_adjustment_def)
qed

theorem center_ray_rule_witness:
  "(0::nat) < RAYS \<and> (\<exists>sim. setup_fuzzy_control RAYS = Inr sim
      \<and> angle_adjustment RAYS 3 = 0
      \<and> rules_of_ray sim 3 = [Rule 3 Close Hard_right])"
  using center_ray_rule [of RAYS] by (simp add: RAYS_def)

text \<open>
  Claim C4. In the rule base built by the setup, a ray to the left of the center has
  exactly the rules \<open>close \<rightarrow> right\<close> and \<open>medium \<rightarrow> slight_right\<close>, a ray to the right
  of the center exactly \<open>close \<rightarrow> left\<close> and \<open>medium \<rightarrow> slight_left\<close>, and no rule has
  the antecedent label \<open>far\<close>.
\<close>

theorem side_ray_rules:
  "\<exists>sim. setup_fuzzy_control rays = Inr sim
     \<and> (\<forall>i. i < rays \<and> i < rays div 2 \<longrightarrow>
           rules_of_ray sim i = [Rule i Close Right, Rule i Medium Slight_right])
     \<and> (\<forall>i. i < rays \<and> rays div 2 < i \<longrightarrow>
           rules_of_ray sim i = [Rule i Close Left, Rule i Medium Slight_left])
     \<and> (\<forall>r \<in> set (rules (ctrl sim)). rule_antecedent r \<noteq> Far)"
  by (simp add: setup_fuzzy_control_eq rules_of_ray_def fuzzy_system_def filter_build_rules
      rules_for_ray_def build_rules_no_far)

theorem side_ray_rules_witness:
  "\<exists>sim. setup_fuzzy_control 7 = Inr sim
     \<and> rules_of_ray sim 1 = [Rule 1 Close Right, Rule 1 Medium Slight_right]
     \<and> rules_of_ray sim 5 = [Rule 5 Close Left, Rule 5 Medium Slight_left]
     \<and> Rule 5 Close Left \<in> set (rules (ctrl sim))
     \<and> rule_antecedent (Rule 5 Close Left) \<noteq> Far"
proof -
  from side_ray_rules [of 7] obtain sim where
    s: "setup_fuzzy_control 7 = Inr sim"
    and l: "\<forall>i. i < 7 \<and> i < 7 div 2 \<longrightarrow>
           rules_of_ray sim i = [Rule i Close Right, Rule i Medium Slight_right]"
    and r: "\<forall>i. i < 7 \<and> 7 div 2 < i \<longrightarrow>
           rules_of_ray sim i = [Rule i Close Left, Rule i Medium Slight_left]"
    and f: "\<forall>r \<in> set (rules (ctrl sim)). rule_antecedent r \<noteq> Far"
    by blast
  from l have l1: "rules_of_ray sim 1 = [Rule 1 Close Right, Rule 1 Medium Slight_right]"
    by simp
  from r have r5: "rules_of_ray sim 5 = [Rule 5 Close Left, Rule 5 Medium Slight_left]"
    by simp
  from r5 have "Rule 5 Close Left \<in> set (rules_of_ray sim 5)"
    by simp
  then have m: "Rule 5 Close Left \<in> set (rules (ctrl sim))"
    by (simp add: rules_of_ray_def)
  from s l1 r5 m f show ?thesis by auto
qed

text \<open>
  Claim C5 does not hold as stated: the setup contains no check of the ray count. With
  six rays it succeeds and gives the center rule to ray 3.
\<close>

theorem even_ray_count_accepted:
  "\<not> isl (setup_fuzzy_control 6)
   \<and> rules (ctrl (projr (setup_fuzzy_control 6))) =
       [Rule 0 Close Right, Rule 0 Medium Slight_right,
        Rule 1 Close Right, Rule 1 Medium Slight_right,
        Rule 2 Close Right, Rule 2 Medium Slight_right,
        Rule 3 Close Hard_right,
        Rule 4 Close Left, Rule 4 Medium Slight_left,
        Rule 5 Close Left, Rule 5 Medium Slight_left]"
proof -
  have "build_rules 6 =
       [Rule 0 Close Right, Rule 0 Medium Slight_right,
        Rule 1 Close Right, Rule 1 Medium Slight_right,
        Rule 2 Close Right, Rule 2 Medium Slight_right,
        Rule 3 Close Hard_right,
        Rule 4 Close Left, Rule 4 Medium Slight_left,
        Rule 5 Close Left, Rule 5 Medium Slight_left]"
    by code_simp
  then show ?thesis
    by (simp add: setup_fuzzy_control_eq fuzzy_system_def)
qed

text \<open>
  Claim C5, amended. The setup succeeds for every ray count, even or odd; it builds one
  input variable per ray and the rule base of the loop, in which index \<open>rays div 2\<close> is
  treated as the center ray.
\<close>

theorem setup_accepts_every_ray_count:
  "\<not> isl (setup_fuzzy_control rays)
   \<and> length (distances_input (ctrl (projr (setup_fuzzy_control rays)))) = rays
   \<and> rules (ctrl (projr (setup_fuzzy_control rays))) = build_rules rays
   \<and> rules_for_ray rays (rays div 2) = [Rule (rays div 2) Close Hard_right]"
  by (simp add: setup_fuzzy_control_eq fuzzy_system_def rules_for_ray_def angle_adjustment_def)

section \<open>Properties of the decision step\<close>

lemma set_inputs_enumerate:
  assumes "n + length vs \<le> length (distances_input (ctrl sim))"
  shows "\<exists>sim'. set_inputs sim (enumerate n vs) = Inr sim'
           \<and> ctrl sim' = ctrl sim \<and> sim_output sim' = sim_output sim
           \<and> (\<forall>i. sim_input sim' i =
                 (if n \<le> i \<and> i < n + length vs
                  then Some (clip (universe_lo (distances_input (ctrl sim) ! i))
                                  (universe_hi (distances_input (ctrl sim) ! i))
                                  (real_of_int (vs ! (i - n))))
                  else sim_input sim i))"
  using assms
proof (induction vs arbitrary: n sim)
  case Nil
  then show ?case by auto
next
  case (Cons v vs)
  let ?sim1 = "sim\<lparr>sim_input := (sim_input sim)
      (n \<mapsto> clip (universe_lo (distances_input (ctrl sim) ! n))
                 (universe_hi (distances_input (ctrl sim) ! n)) (real_of_int v))\<rparr>"
  from Cons.prems have n: "n < length (distances_input (ctrl sim))" by simp
  then have step: "set_input sim n v = Inr ?sim1"
    by (simp add: set_input_def Let_def)
  from Cons.prems have "Suc n + length vs \<le> length (distances_input (ctrl ?sim1))" by simp
  from Cons.IH [OF this] obtain sim' where
    r: "set_inputs ?sim1 (enumerate (Suc n) vs) = Inr sim'"
    and c: "ctrl sim' = ctrl ?sim1" and out: "sim_output sim' = sim_output ?sim1"
    and inp: "\<forall>i. sim_input sim' i =
                 (if Suc n \<le> i \<and> i < Suc n + length vs
                  then Some (clip (universe_lo (distances_input (ctrl ?sim1) ! i))
                                  (universe_hi (distances_input (ctrl ?sim1) ! i))
                                  (real_of_int (vs ! (i - Suc n))))
                  else sim_input ?sim1 i)"
    by blast
  have "set_inputs sim (enumerate n (v # vs)) = Inr sim'"
    using step r by (simp add: bind_err_def)
  moreover have "ctrl sim' = ctrl sim" using c by simp
  moreover have "sim_output sim' = sim_output sim" using out by simp
  moreover have "\<forall>i. sim_input sim' i =
                 (if n \<le> i \<and> i < n + length (v # vs)
                  then Some (clip (universe_lo (distances_input (ctrl sim) ! i))
                                  (universe_hi (distances_input (ctrl sim) ! i))
                                  (real_of_int ((v # vs) ! (i - n))))
                  else sim_input sim i)"
  proof
    fix i
    show "sim_input sim' i =
                 (if n \<le> i \<and> i < n + length (v # vs)
                  then Some (clip (universe_lo (distances_input (ctrl sim) ! i))
                                  (universe_hi (distances_input (ctrl sim) ! i))
                                  (real_of_int ((v # vs) ! (i - n))))
                  else sim_input sim i)"
    proof (cases "i = n")
      case True
      then show ?thesis using inp by simp
    next
      case False
      then show ?thesis using inp by (auto simp add: nth_Cons' Suc_diff_Suc)
    qed
  qed
  ultimately show ?case by blast
qed

lemma firing_strength_cong:
  "f (rule_input r) = g (rule_input r) \<Longrightarrow> firing_strength sys f r = firing_strength sys g r"
  by (simp add: firing_strength_def)

lemma effective_strength_cong:
  assumes "\<forall>r \<in> set (rules sys). f (rule_input r) = g (rule_input r)"
  shows "effective_strength sys f out = effective_strength sys g out"
proof -
  have "map (firing_strength sys f) (filter (\<lambda>r. rule_consequent r = out) (rules sys))
      = map (firing_strength sys g) (filter (\<lambda>r. rule_consequent r = out) (rules sys))"
    using assms by (intro map_cong refl firing_strength_cong) simp
  then show ?thesis
    unfolding effective_strength_def by (rule arg_cong [where f = "\<lambda>xs. fold max xs 0"])
qed

lemma aggregated_cong:
  assumes "\<forall>r \<in> set (rules sys). f (rule_input r) = g (rule_input r)"
  shows "aggregated sys f = aggregated sys g"
  by (rule ext) (simp add: aggregated_def effective_strength_cong [OF assms])

lemma defuzzify_cong:
  assumes "\<forall>r \<in> set (rules sys). f (rule_input r) = g (rule_input r)"
  shows "defuzzify sys f = defuzzify sys g"
  by (simp add: defuzzify_def aggregated_cong [OF assms])

lemma controller_decides:
  assumes len: "length (distances c) = length (distances_input (ctrl (steering c)))"
    and wf: "\<forall>r \<in> set (rules (ctrl (steering c))).
               rule_input r < length (distances_input (ctrl (steering c)))"
  shows "\<exists>sim'. fuzzy_logic_controller c =
            Inr ((defuzzify (ctrl (steering c)) (crisp_inputs (ctrl (steering c)) (distances c)),
                  speed c), c\<lparr>steering := sim'\<rparr>)
           \<and> ctrl sim' = ctrl (steering c)"
proof -
  let ?sys = "ctrl (steering c)"
  from len have "0 + length (distances c) \<le> length (distances_input ?sys)" by simp
  from set_inputs_enumerate [OF this] obtain sim1 where
    s: "set_inputs (steering c) (enumerate 0 (distances c)) = Inr sim1"
    and c1: "ctrl sim1 = ?sys"
    and inp: "\<forall>i. sim_input sim1 i =
                 (if 0 \<le> i \<and> i < 0 + length (distances c)
                  then Some (clip (universe_lo (distances_input ?sys ! i))
                                  (universe_hi (distances_input ?sys ! i))
                                  (real_of_int (distances c ! (i - 0))))
                  else sim_input (steering c) i)"
    by blast
  from inp len have known: "\<forall>i < length (distances_input ?sys).
      sim_input sim1 i = Some (crisp_inputs ?sys (distances c) i)"
    by (simp add: crisp_inputs_def)
  then have all: "list_all (\<lambda>i. sim_input sim1 i \<noteq> None) [0..<length (distances_input (ctrl sim1))]"
    by (simp add: list_all_iff c1)
  let ?out = "defuzzify ?sys (\<lambda>i. the (sim_input sim1 i))"
  let ?sim2 = "sim1\<lparr>sim_output := Some ?out\<rparr>"
  from all have comp: "compute sim1 = Inr ?sim2"
    by (simp add: compute_def c1)
  have "\<forall>r \<in> set (rules ?sys). (\<lambda>i. the (sim_input sim1 i)) (rule_input r)
           = crisp_inputs ?sys (distances c) (rule_input r)"
    using wf known by simp
  from defuzzify_cong [OF this]
  have out: "?out = defuzzify ?sys (crisp_inputs ?sys (distances c))" .
  have "fuzzy_logic_controller c = Inr ((?out, speed c), c\<lparr>steering := ?sim2\<rparr>)"
    by (simp add: fuzzy_logic_controller_def s comp bind_err_def)
  with out c1 show ?thesis
    by (intro exI [of _ ?sim2]) simp
qed

lemma controller_frame:
  assumes "fuzzy_logic_controller c = Inr (res, c')"
  shows "c' = c\<lparr>steering := steering c'\<rparr> \<and> snd res = speed c"
  using assms
  by (auto simp add: fuzzy_logic_controller_def bind_err_def
      split: sum.splits option.splits)

lemma build_rules_input_lt:
  "r \<in> set (build_rules rays) \<Longrightarrow> rule_input r < rays"
  by (auto simp add: build_rules_def dest: rule_input_rules_for_ray)

section \<open>Properties of the inference and of the tick\<close>

lemma fold_max_ge: "(a::real) \<le> fold max xs a"
proof (induction xs arbitrary: a)
  case Nil
  show ?case by simp
next
  case (Cons x xs)
  have "a \<le> max x a" by simp
  also have "\<dots> \<le> fold max xs (max x a)" by (rule Cons.IH)
  finally show ?case by simp
qed

lemma fold_max_absorb: "\<forall>x \<in> set xs. x \<le> a \<Longrightarrow> fold max xs a = (a::real)"
  by (induction xs arbitrary: a) (simp_all add: max_absorb2)

lemma aggregated_nonneg: "0 \<le> aggregated sys f x"
  unfolding aggregated_def by (rule fold_max_ge)

lemma weighted_sum_bounds:
  fixes w :: "real \<Rightarrow> real"
  assumes "\<forall>x \<in> set xs. lo \<le> x \<and> x \<le> hi" and "\<forall>x \<in> set xs. 0 \<le> w x"
  shows "lo * sum_list (map w xs) \<le> sum_list (map (\<lambda>x. x * w x) xs)
       \<and> sum_list (map (\<lambda>x. x * w x) xs) \<le> hi * sum_list (map w xs)"
  using assms
proof (induction xs)
  case Nil
  show ?case by simp
next
  case (Cons x xs)
  then have ih: "lo * sum_list (map w xs) \<le> sum_list (map (\<lambda>x. x * w x) xs)"
      "sum_list (map (\<lambda>x. x * w x) xs) \<le> hi * sum_list (map w xs)"
    by simp_all
  from Cons.prems have "lo * w x \<le> x * w x" "x * w x \<le> hi * w x"
    by (simp_all add: mult_right_mono)
  with ih show ?case
    by (simp add: distrib_left)
qed

lemma weight_sum_pos:
  fixes w :: "real \<Rightarrow> real"
  assumes "\<forall>x \<in> set xs. 0 \<le> w x" and "\<exists>x \<in> set xs. w x \<noteq> 0"
  shows "0 < sum_list (map w xs)"
  using assms
proof (induction xs)
  case Nil
  then show ?case by simp
next
  case (Cons x xs)
  have nn: "0 \<le> sum_list (map w xs)"
    using Cons.prems(1) by (intro sum_list_nonneg) auto
  show ?case
  proof (cases "w x = 0")
    case True
    with Cons show ?thesis by auto
  next
    case False
    with Cons.prems(1) have "0 < w x" by (simp add: less_le)
    with nn show ?thesis by simp
  qed
qed

lemma defuzzify_bounds:
  assumes u: "\<forall>x \<in> set (universe (steering_var sys)). lo \<le> x \<and> x \<le> hi"
    and lo: "lo \<le> 0" and hi: "0 \<le> hi"
  shows "real_of_int lo \<le> defuzzify sys f \<and> defuzzify sys f \<le> real_of_int hi"
proof -
  let ?xs = "map real_of_int (universe (steering_var sys))"
  let ?mu = "aggregated sys f"
  show ?thesis
  proof (cases "list_all (\<lambda>x. ?mu x = 0) ?xs")
    case True
    then have "defuzzify sys f = 0"
      by (simp add: defuzzify_def Let_def)
    with lo hi show ?thesis by simp
  next
    case False
    then have d: "defuzzify sys f = sum_list (map (\<lambda>x. x * ?mu x) ?xs) / sum_list (map ?mu ?xs)"
      by (simp add: defuzzify_def Let_def)
    have nn: "\<forall>x \<in> set ?xs. 0 \<le> ?mu x"
      by (simp add: aggregated_nonneg)
    from False have "\<exists>x \<in> set ?xs. ?mu x \<noteq> 0"
      by (simp add: list_all_iff)
    with nn have pos: "0 < sum_list (map ?mu ?xs)"
      by (rule weight_sum_pos)
    from u have "\<forall>x \<in> set ?xs. real_of_int lo \<le> x \<and> x \<le> real_of_int hi"
      by auto
    from weighted_sum_bounds [OF this nn] pos show ?thesis
      unfolding d by (simp add: pos_le_divide_eq pos_divide_le_eq mult.commute)
  qed
qed

lemma fuzzy_system_bounds:
  "- 90 \<le> defuzzify (fuzzy_system rays) f \<and> defuzzify (fuzzy_system rays) f \<le> 90"
proof -
  have "\<forall>x \<in> set (universe (steering_var (fuzzy_system rays))). - 90 \<le> x \<and> x \<le> 90"
    by (simp add: fuzzy_system_def)
  from defuzzify_bounds [OF this, of f] show ?thesis by simp
qed

lemma rules_for_ray_antecedent:
  "r \<in> set (rules_for_ray rays j) \<Longrightarrow> rule_antecedent r = Close \<or> rule_antecedent r = Medium"
  by (auto simp add: rules_for_ray_def split: if_splits)

lemma build_rules_antecedent:
  "r \<in> set (build_rules rays) \<Longrightarrow> rule_antecedent r = Close \<or> rule_antecedent r = Medium"
  by (auto simp add: build_rules_def dest: rules_for_ray_antecedent)

lemma firing_strength_far:
  assumes "r \<in> set (build_rules rays)" and "f (rule_input r) = 600"
  shows "firing_strength (fuzzy_system rays) f r = 0"
proof -
  from assms(1) have i: "rule_input r < rays" by (rule build_rules_input_lt)
  from assms(1) have "rule_antecedent r = Close \<or> rule_antecedent r = Medium"
    by (rule build_rules_antecedent)
  with i assms(2) show ?thesis
    by (auto simp add: firing_strength_def fuzzy_system_def fuzzify_def distance_terms_def)
qed

lemma effective_strength_far:
  assumes "\<forall>i < rays. f i = 600"
  shows "effective_strength (fuzzy_system rays) f out = 0"
proof -
  have "\<forall>r \<in> set (build_rules rays). firing_strength (fuzzy_system rays) f r = 0"
    using assms by (auto intro!: firing_strength_far dest: build_rules_input_lt)
  then have "\<forall>x \<in> set (map (firing_strength (fuzzy_system rays) f)
       (filter (\<lambda>r. rule_consequent r = out) (rules (fuzzy_system rays)))). x \<le> 0"
    by (auto simp add: fuzzy_system_def)
  then show ?thesis
    unfolding effective_strength_def by (rule fold_max_absorb)
qed

lemma aggregated_far:
  assumes "\<forall>i < rays. f i = 600"
  shows "aggregated (fuzzy_system rays) f x = 0"
proof -
  have "\<forall>y \<in> set (map (\<lambda>l. min (effective_strength (fuzzy_system rays) f l)
            (mf_eval (out_terms (steering_var (fuzzy_system rays)) l) x)) steer_labels). y \<le> 0"
    by (simp add: effective_strength_far [OF assms])
  then show ?thesis
    unfolding aggregated_def by (rule fold_max_absorb)
qed

lemma defuzzify_far:
  assumes "\<forall>i < rays. f i = 600"
  shows "defuzzify (fuzzy_system rays) f = 0"
  by (simp add: defuzzify_def Let_def aggregated_far [OF assms] list_all_iff)

lemma crisp_inputs_far:
  "i < rays \<Longrightarrow> crisp_inputs (fuzzy_system rays) (replicate rays 600) i = 600"
  by (simp add: crisp_inputs_def fuzzy_system_def clip_def)

lemma fuzzy_system_wf:
  "length (distances_input (fuzzy_system rays)) = rays"
  "\<forall>r \<in> set (rules (fuzzy_system rays)). rule_input r < length (distances_input (fuzzy_system rays))"
  by (auto simp add: fuzzy_system_def dest: build_rules_input_lt)

lemma controller_on_fuzzy_system:
  assumes "ctrl (steering c) = fuzzy_system rays" and "length (distances c) = rays"
  shows "\<exists>sim'. fuzzy_logic_controller c =
            Inr ((defuzzify (fuzzy_system rays) (crisp_inputs (fuzzy_system rays) (distances c)),
                  speed c), c\<lparr>steering := sim'\<rparr>)
           \<and> ctrl sim' = fuzzy_system rays"
  using controller_decides [of c] assms fuzzy_system_wf [of rays] by simp

lemma setup_ctrl: "setup_fuzzy_control rays = Inr sim \<Longrightarrow> ctrl sim = fuzzy_system rays"
  by (auto simp add: setup_fuzzy_control_eq)

lemma set_inputs_ctrl:
  "set_inputs sim xs = Inr sim' \<Longrightarrow> ctrl sim' = ctrl sim"
proof (induction xs arbitrary: sim)
  case Nil
  then show ?case by simp
next
  case (Cons p xs)
  obtain i v where p: "p = (i, v)" by (cases p)
  from Cons.prems obtain sim1 where
    a: "set_input sim i v = Inr sim1" and b: "set_inputs sim1 xs = Inr sim'"
    by (auto simp add: p bind_err_def split: sum.splits)
  from a have "ctrl sim1 = ctrl sim"
    by (auto simp add: set_input_def Let_def split: if_splits)
  with Cons.IH [OF b] show ?case by simp
qed

lemma upto_neg1: "[- 1..numeral n] = - 1 # [0..numeral n]"
  by (simp add: upto.simps)

lemma upto_zero: "[0..numeral n] = 0 # [1..numeral n]"
  by (simp add: upto.simps)

lemma upto_one: "[1..numeral n] = 1 # [2..numeral n]"
  by (simp add: upto.simps [of 1])

lemma mf_eval_range:
  assumes "a \<le> b" and "b \<le> c"
  shows "0 \<le> mf_eval (Triangle a b c) x \<and> mf_eval (Triangle a b c) x \<le> 1"
proof -
  have "0 \<le> (x - a) / (b - a) \<and> (x - a) / (b - a) \<le> 1" if "a \<le> x" "x < b"
    using that by (simp add: divide_le_eq_1)
  moreover have "0 \<le> (c - x) / (c - b) \<and> (c - x) / (c - b) \<le> 1" if "b < x" "x \<le> c"
    using that by (simp add: divide_le_eq_1)
  ultimately show ?thesis
    by (auto simp add: not_less not_le less_le)
qed

lemma steering_terms_range:
  "0 \<le> mf_eval (steering_terms l) x \<and> mf_eval (steering_terms l) x \<le> 1"
  unfolding steering_terms_def by (cases l) (simp_all only: steer_label.case mf_eval_range)

lemma effective_front:
  "effective_strength (fuzzy_system 7) (crisp_inputs (fuzzy_system 7) front_distances) l
     = (if l = Hard_right then 1 else 0)"
proof -
  have r: "rules (fuzzy_system 7) = build_rules 7"
    by (simp add: fuzzy_system_def)
  show ?thesis
    unfolding effective_strength_def r
    by (cases l) (simp_all add: build_rules_7 firing_strength_def fuzzy_system_def crisp_inputs_def
      front_distances_def fuzzify_def distance_terms_def clip_def)
qed

lemma aggregated_front:
  "aggregated (fuzzy_system 7) (crisp_inputs (fuzzy_system 7) front_distances) x
     = mf_eval (Triangle 30 60 90) x"
proof -
  have s: "out_terms (steering_var (fuzzy_system 7)) = steering_terms"
    by (simp add: fuzzy_system_def)
  have z: "min 0 (mf_eval (steering_terms l) x) = 0" for l
    using steering_terms_range [of l x] by simp
  have h: "steering_terms Hard_right = Triangle 30 60 90"
    by (simp add: steering_terms_def)
  have o: "min 1 (mf_eval (Triangle 30 60 90) x) = mf_eval (Triangle 30 60 90) x"
    "max (mf_eval (Triangle 30 60 90) x) 0 = mf_eval (Triangle 30 60 90) x"
    using steering_terms_range [of Hard_right x] unfolding h by simp_all
  show ?thesis
    unfolding aggregated_def s
    by (simp only: effective_front steer_labels_def list.map fold_simps z o h
        steer_label.distinct if_True if_False max.idem refl)
qed

lemma hard_right_sums:
  "sum_list (map (\<lambda>x. x * mf_eval (Triangle 30 60 90) x) (map real_of_int [-90..90])) = 1800"
  "sum_list (map (mf_eval (Triangle 30 60 90)) (map real_of_int [-90..90])) = 30"
  by (simp_all add: upto_neg1 upto_zero upto_one)

lemma defuzzify_front:
  "defuzzify (fuzzy_system 7) (crisp_inputs (fuzzy_system 7) front_distances) = 60"
proof -
  have u: "universe (steering_var (fuzzy_system 7)) = [-90..90]"
    by (simp add: fuzzy_system_def)
  have a: "aggregated (fuzzy_system 7) (crisp_inputs (fuzzy_system 7) front_distances)
             = mf_eval (Triangle 30 60 90)"
    by (rule ext) (rule aggregated_front)
  have "60 \<in> set (map real_of_int [-90..90])"
    by simp
  moreover have "mf_eval (Triangle 30 60 90) 60 \<noteq> 0" by simp
  ultimately have n: "\<not> list_all (\<lambda>x. mf_eval (Triangle 30 60 90) x = 0) (map real_of_int [-90..90])"
    unfolding list_all_iff by blast
  show ?thesis
    unfolding defuzzify_def u a Let_def using n by (simp only: hard_right_sums if_False)
qed

lemma car_init_start:
  "car_init plain_pygame RAYS () (500, 400) = Inr start_car"
  by (simp add: car_init_def setup_fuzzy_control_eq bind_err_def plain_pygame_def start_car_def
      RAYS_def numeral_eq_Suc)

lemma check_ray_Inr:
  assumes "check_ray pg rays spread i (scr, c) = Inr (scr', c')"
  shows "\<exists>d. 0 \<le> d \<and> d \<le> max_distance_default \<and> i < length (distances c)
             \<and> c' = c\<lparr>distances := (distances c)[i := d]\<rparr>"
proof -
  let ?a = "angle c - spread / 2 + (spread / real_of_int (int rays - 1)) * real i"
  let ?d = "cast_ray scr (front_center c) ?a max_distance_default"
  have "0 \<le> max_distance_default" by (simp add: max_distance_default_def)
  then have r: "0 \<le> ?d \<and> ?d \<le> max_distance_default"
    by (rule cast_ray_range)
  from assms have "i < length (distances c) \<and> c' = c\<lparr>distances := (distances c)[i := ?d]\<rparr>"
    by (simp add: check_ray_def ray_angle_def bind_err_def Let_def split: if_splits)
  with r show ?thesis by blast
qed

lemma check_ray_total:
  assumes "rays \<noteq> 1" and "i < length (distances c)"
  shows "\<exists>scr' c'. check_ray pg rays spread i (scr, c) = Inr (scr', c')"
  using assms by (simp add: check_ray_def ray_angle_def bind_err_def Let_def)

lemma check_collision_loop_inv:
  assumes "check_collision_loop pg rays spread js (scr, c) = Inr (scr', c')"
  shows "c' = c\<lparr>distances := distances c'\<rparr>
       \<and> length (distances c') = length (distances c)
       \<and> (\<forall>j < length (distances c).
             (j \<in> set js \<longrightarrow> 0 \<le> distances c' ! j \<and> distances c' ! j \<le> max_distance_default)
           \<and> (j \<notin> set js \<longrightarrow> distances c' ! j = distances c ! j))"
  using assms
proof (induction js arbitrary: scr c)
  case Nil
  then show ?case by simp
next
  case (Cons i js)
  from Cons.prems obtain scr1 c1 where
    a: "check_ray pg rays spread i (scr, c) = Inr (scr1, c1)"
    and b: "check_collision_loop pg rays spread js (scr1, c1) = Inr (scr', c')"
    by (auto simp add: bind_err_def split: sum.splits)
  from check_ray_Inr [OF a] obtain d where
    d: "0 \<le> d" "d \<le> max_distance_default" "i < length (distances c)"
      "c1 = c\<lparr>distances := (distances c)[i := d]\<rparr>"
    by blast
  from Cons.IH [OF b] have
    f: "c' = c1\<lparr>distances := distances c'\<rparr>"
    and l: "length (distances c') = length (distances c1)"
    and e: "\<forall>j < length (distances c1).
             (j \<in> set js \<longrightarrow> 0 \<le> distances c' ! j \<and> distances c' ! j \<le> max_distance_default)
           \<and> (j \<notin> set js \<longrightarrow> distances c' ! j = distances c1 ! j)"
    by blast+
  from f d(4) have "c' = c\<lparr>distances := distances c'\<rparr>"
    by (metis car.surjective car.update_convs(7))
  moreover from l d(4) have "length (distances c') = length (distances c)" by simp
  moreover have "\<forall>j < length (distances c).
             (j \<in> set (i # js) \<longrightarrow> 0 \<le> distances c' ! j \<and> distances c' ! j \<le> max_distance_default)
           \<and> (j \<notin> set (i # js) \<longrightarrow> distances c' ! j = distances c ! j)"
  proof (intro allI impI)
    fix j
    assume j: "j < length (distances c)"
    with d(4) have j1: "j < length (distances c1)" by simp
    show "(j \<in> set (i # js) \<longrightarrow> 0 \<le> distances c' ! j \<and> distances c' ! j \<le> max_distance_default)
           \<and> (j \<notin> set (i # js) \<longrightarrow> distances c' ! j = distances c ! j)"
    proof (cases "j \<in> set js")
      case True
      with e j1 show ?thesis by simp
    next
      case False
      with e j1 have "distances c' ! j = distances c1 ! j" by simp
      with d j show ?thesis
        by (cases "j = i") (simp_all add: False)
    qed
  qed
  ultimately show ?case by blast
qed

lemma check_collision_loop_total:
  assumes "rays \<noteq> 1" and "\<forall>i \<in> set js. i < length (distances c)"
  shows "\<exists>scr' c'. check_collision_loop pg rays spread js (scr, c) = Inr (scr', c')"
  using assms
proof (induction js arbitrary: scr c)
  case Nil
  show ?case by simp
next
  case (Cons i js)
  from Cons.prems have "i < length (distances c)" by simp
  from check_ray_total [OF Cons.prems(1) this] obtain scr1 c1 where
    a: "check_ray pg rays spread i (scr, c) = Inr (scr1, c1)"
    by blast
  from check_ray_Inr [OF a] have "length (distances c1) = length (distances c)"
    by auto
  with Cons.prems have "\<forall>i \<in> set js. i < length (distances c1)" by simp
  from Cons.IH [OF Cons.prems(1) this] obtain scr' c' where
    "check_collision_loop pg rays spread js (scr1, c1) = Inr (scr', c')"
    by blast
  with a show ?case
    by (simp add: bind_err_def)
qed

lemma check_collision_post:
  assumes "length (distances c) = rays"
    and "check_collision pg rays spread scr c = Inr (scr', c')"
  shows "distances_ok rays c' \<and> c' = c\<lparr>distances := distances c'\<rparr>"
proof -
  from assms(2) have "check_collision_loop pg rays spread [0..<rays] (scr, c) = Inr (scr', c')"
    by (simp add: check_collision_def)
  from check_collision_loop_inv [OF this] assms(1) have
    f: "c' = c\<lparr>distances := distances c'\<rparr>"
    and l: "length (distances c') = rays"
    and e: "\<forall>j < rays. 0 \<le> distances c' ! j \<and> distances c' ! j \<le> max_distance_default"
    by auto
  from l e have "list_all (\<lambda>d. 0 \<le> d \<and> d \<le> max_distance_default) (distances c')"
    by (simp add: list_all_length)
  with l f show ?thesis
    by (simp add: distances_ok_def)
qed

lemma check_collision_total:
  assumes "rays \<noteq> 1" and "length (distances c) = rays"
  shows "\<exists>scr' c'. check_collision pg rays spread scr c = Inr (scr', c')"
  unfolding check_collision_def using assms
  by (intro check_collision_loop_total) simp_all

lemma update_manual_frame:
  "distances (update_manual pg ks c) = distances c
   \<and> steering (update_manual pg ks c) = steering c
   \<and> speed (update_manual pg ks c) = speed c"
  by (simp add: update_manual_def redraw_def Let_def)

lemma update_autopilot_Inr:
  assumes "update_autopilot pg rays spread scr c = Inr (scr2, c2)"
  shows "\<exists>scr1 c1 delta s c1'.
           check_collision pg rays spread scr c = Inr (scr1, c1)
         \<and> fuzzy_logic_controller c1 = Inr ((delta, s), c1')
         \<and> angle c2 = angle c1' + delta
         \<and> distances c2 = distances c1'
         \<and> speed c2 = speed c1'
         \<and> steering c2 = steering c1'"
  using assms
  by (auto simp add: update_autopilot_def bind_err_def Let_def redraw_def
      split: sum.splits)

lemma update_autopilot_total:
  assumes "rays \<noteq> 1" and "length (distances c) = rays"
    and "ctrl (steering c) = fuzzy_system rays"
  shows "\<exists>scr2 c2. update_autopilot pg rays spread scr c = Inr (scr2, c2)"
proof -
  from check_collision_total [OF assms(1,2)] obtain scr1 c1 where
    a: "check_collision pg rays spread scr c = Inr (scr1, c1)"
    by blast
  from check_collision_post [OF assms(2) a] have
    "length (distances c1) = rays" and f: "c1 = c\<lparr>distances := distances c1\<rparr>"
    by (simp_all add: distances_ok_def)
  moreover from f assms(3) have "ctrl (steering c1) = fuzzy_system rays"
    by (metis car.select_convs(8) car.surjective car.update_convs(7))
  ultimately obtain res c1' where "fuzzy_logic_controller c1 = Inr (res, c1')"
    using controller_on_fuzzy_system [of c1 rays] by blast
  with a show ?thesis
    by (simp add: update_autopilot_def bind_err_def Let_def)
qed

lemma start_car_facts:
  "ctrl (steering start_car) = fuzzy_system 7" "length (distances start_car) = 7"
  "distances_ok 7 start_car" "\<not> autopilot start_car" "speed start_car = 10"
  "angle start_car = 0"
  by (simp_all add: start_car_def distances_ok_def max_distance_default_def)

lemma front_car_facts:
  "ctrl (steering front_car) = fuzzy_system 7" "distances front_car = front_distances"
  "length front_distances = 7" "speed front_car = 10" "angle front_car = 0"
  "\<not> autopilot front_car"
  by (simp_all add: front_car_def start_car_def front_distances_def)

lemma front_car_decision:
  "\<exists>c'. fuzzy_logic_controller front_car = Inr ((60, 10), c')"
  using controller_on_fuzzy_system [of front_car 7]
  by (auto simp add: front_car_facts defuzzify_front)

text \<open>
  Claim C1. When every one of the \<open>rays\<close> distances equals the maximum range, then for a
  car whose control system is the one built by the setup every rule has firing strength
  0, the aggregated output set is 0 at every point, and the decision step returns the
  steering value 0.
\<close>

theorem all_far_goes_straight:
  assumes "setup_fuzzy_control rays = Inr sim0"
    and "ctrl (steering c) = ctrl sim0"
    and "distances c = replicate rays max_distance_default"
  shows "(\<forall>r \<in> set (rules (ctrl sim0)).
            firing_strength (ctrl sim0) (crisp_inputs (ctrl sim0) (distances c)) r = 0)
       \<and> (\<forall>x. aggregated (ctrl sim0) (crisp_inputs (ctrl sim0) (distances c)) x = 0)
       \<and> (\<exists>c'. fuzzy_logic_controller c = Inr ((0, speed c), c'))"
proof -
  from assms have sys0: "ctrl sim0 = fuzzy_system rays"
    by (simp add: setup_ctrl)
  with assms have sys: "ctrl (steering c) = fuzzy_system rays"
    by simp
  from assms(3) have len: "length (distances c) = rays" by simp
  have far: "\<forall>i < rays. crisp_inputs (fuzzy_system rays) (distances c) i = 600"
    by (simp add: assms(3) max_distance_default_def crisp_inputs_far)
  have "\<forall>r \<in> set (build_rules rays).
          firing_strength (fuzzy_system rays) (crisp_inputs (fuzzy_system rays) (distances c)) r = 0"
    using far by (auto intro!: firing_strength_far dest: build_rules_input_lt)
  then have a: "\<forall>r \<in> set (rules (ctrl sim0)).
            firing_strength (ctrl sim0) (crisp_inputs (ctrl sim0) (distances c)) r = 0"
    unfolding sys0 by (simp add: fuzzy_system_def)
  have b: "\<forall>x. aggregated (ctrl sim0) (crisp_inputs (ctrl sim0) (distances c)) x = 0"
    unfolding sys0 using aggregated_far [OF far] by simp
  have "defuzzify (fuzzy_system rays) (crisp_inputs (fuzzy_system rays) (distances c)) = 0"
    using far by (rule defuzzify_far)
  with controller_on_fuzzy_system [OF sys len]
  have "\<exists>c'. fuzzy_logic_controller c = Inr ((0, speed c), c')" by auto
  with a b show ?thesis by blast
qed

theorem all_far_goes_straight_witness:
  "setup_fuzzy_control 7 = Inr \<lparr>ctrl = fuzzy_system 7, sim_input = Map.empty, sim_output = None\<rparr>
   \<and> distances (start_car\<lparr>distances := replicate 7 600\<rparr>) = replicate 7 max_distance_default
   \<and> Rule 3 Close Hard_right \<in> set (rules (fuzzy_system 7))
   \<and> firing_strength (fuzzy_system 7)
        (crisp_inputs (fuzzy_system 7) (replicate 7 600)) (Rule 3 Close Hard_right) = 0
   \<and> aggregated (fuzzy_system 7) (crisp_inputs (fuzzy_system 7) (replicate 7 600)) 60 = 0
   \<and> (\<exists>c'. fuzzy_logic_controller (start_car\<lparr>distances := replicate 7 600\<rparr>) = Inr ((0, 10), c'))"
proof -
  let ?c = "start_car\<lparr>distances := replicate 7 600\<rparr>"
  let ?sim = "\<lparr>ctrl = fuzzy_system 7, sim_input = Map.empty, sim_output = None\<rparr>"
  have a: "setup_fuzzy_control 7 = Inr ?sim"
    by (rule setup_fuzzy_control_eq)
  have b: "ctrl (steering ?c) = ctrl ?sim"
    by (simp add: start_car_def)
  have c: "distances ?c = replicate 7 max_distance_default"
    by (simp add: max_distance_default_def)
  have m: "Rule 3 Close Hard_right \<in> set (rules (fuzzy_system 7))"
    by (simp add: fuzzy_system_def build_rules_7)
  from all_far_goes_straight [OF a b c] have
    f: "\<forall>r \<in> set (rules (ctrl ?sim)).
            firing_strength (ctrl ?sim) (crisp_inputs (ctrl ?sim) (distances ?c)) r = 0"
    and g: "\<forall>x. aggregated (ctrl ?sim) (crisp_inputs (ctrl ?sim) (distances ?c)) x = 0"
    and h: "\<exists>c'. fuzzy_logic_controller ?c = Inr ((0, speed ?c), c')"
    by blast+
  from f m have "firing_strength (fuzzy_system 7)
        (crisp_inputs (fuzzy_system 7) (replicate 7 600)) (Rule 3 Close Hard_right) = 0"
    by auto
  moreover from g have
    "aggregated (fuzzy_system 7) (crisp_inputs (fuzzy_system 7) (replicate 7 600)) 60 = 0"
    by simp
  moreover from h have "\<exists>c'. fuzzy_logic_controller ?c = Inr ((0, 10), c')"
    by (simp add: start_car_def)
  ultimately show ?thesis
    using a c m by blast
qed

text \<open>
  Claim C6. Whenever the decision step of a car whose control system is the one built by
  the setup produces a value, the steering value lies between -90 and 90. This holds for
  every stored distance vector, in particular for the valid ones of the right length.
\<close>

theorem steering_within_universe:
  assumes "setup_fuzzy_control rays = Inr sim0"
    and "ctrl (steering c) = ctrl sim0"
    and "fuzzy_logic_controller c = Inr ((steering_delta, s), c')"
  shows "- 90 \<le> steering_delta \<and> steering_delta \<le> 90"
proof -
  from assms have sys: "ctrl (steering c) = fuzzy_system rays"
    by (simp add: setup_ctrl)
  from assms(3) obtain sim1 where
    d: "steering_delta = defuzzify (ctrl sim1) (\<lambda>i. the (sim_input sim1 i))"
    and i: "set_inputs (steering c) (enumerate 0 (distances c)) = Inr sim1"
    by (auto simp add: fuzzy_logic_controller_def bind_err_def compute_def
        split: sum.splits option.splits if_splits)
  from set_inputs_ctrl [OF i] sys have "ctrl sim1 = fuzzy_system rays" by simp
  with d fuzzy_system_bounds [of rays "\<lambda>i. the (sim_input sim1 i)"] show ?thesis by simp
qed

theorem steering_within_universe_witness:
  "\<exists>c'. fuzzy_logic_controller front_car = Inr ((60, 10), c') \<and> - 90 \<le> (60::real) \<and> (60::real) \<le> 90"
proof -
  have a: "setup_fuzzy_control 7 = Inr \<lparr>ctrl = fuzzy_system 7, sim_input = Map.empty, sim_output = None\<rparr>"
    by (rule setup_fuzzy_control_eq)
  have b: "ctrl (steering front_car) = ctrl \<lparr>ctrl = fuzzy_system 7, sim_input = Map.empty, sim_output = None\<rparr>"
    by (simp add: front_car_facts)
  from front_car_decision obtain c' where c: "fuzzy_logic_controller front_car = Inr ((60, 10), c')"
    by blast
  from steering_within_universe [OF a b c] c show ?thesis by blast
qed

text \<open>
  Claim C7. Two cars with the same control system, the same distance vector (one entry
  per ray) and the same speed obtain the same result from the decision step, whatever
  inputs and output their simulations hold from earlier calls and whatever the rest of
  their state is; and a second call on the state left by the first returns the same
  result again.
\<close>

theorem decision_deterministic:
  assumes "setup_fuzzy_control rays = Inr sim0"
    and "ctrl (steering c1) = ctrl sim0" and "ctrl (steering c2) = ctrl sim0"
    and "length (distances c1) = rays"
    and "distances c2 = distances c1" and "speed c2 = speed c1"
  shows "\<exists>res c1' c2' c1''.
           fuzzy_logic_controller c1 = Inr (res, c1')
         \<and> fuzzy_logic_controller c2 = Inr (res, c2')
         \<and> fuzzy_logic_controller c1' = Inr (res, c1'')"
proof -
  from assms have s1: "ctrl (steering c1) = fuzzy_system rays"
    and s2: "ctrl (steering c2) = fuzzy_system rays"
    by (simp_all add: setup_ctrl)
  from assms have l2: "length (distances c2) = rays" by simp
  let ?res = "(defuzzify (fuzzy_system rays) (crisp_inputs (fuzzy_system rays) (distances c1)),
                  speed c1)"
  from controller_on_fuzzy_system [OF s1 assms(4)] obtain sim1 where
    r1: "fuzzy_logic_controller c1 = Inr (?res, c1\<lparr>steering := sim1\<rparr>)"
    and k1: "ctrl sim1 = fuzzy_system rays"
    by blast
  from controller_on_fuzzy_system [OF s2 l2] assms(5,6) obtain sim2 where
    r2: "fuzzy_logic_controller c2 = Inr (?res, c2\<lparr>steering := sim2\<rparr>)"
    by auto
  have "ctrl (steering (c1\<lparr>steering := sim1\<rparr>)) = fuzzy_system rays"
    and "length (distances (c1\<lparr>steering := sim1\<rparr>)) = rays"
    using k1 assms(4) by simp_all
  from controller_on_fuzzy_system [OF this] obtain sim3 where
    r3: "fuzzy_logic_controller (c1\<lparr>steering := sim1\<rparr>)
           = Inr (?res, c1\<lparr>steering := sim1, steering := sim3\<rparr>)"
    by auto
  from r1 r2 r3 show ?thesis by blast
qed

theorem decision_deterministic_witness:
  "\<exists>c1' c2' c1''.
       fuzzy_logic_controller front_car = Inr ((60, 10), c1')
     \<and> fuzzy_logic_controller
          (front_car\<lparr>angle := 35,
             steering := (steering front_car)\<lparr>sim_input := (\<lambda>i. Some 7), sim_output := Some 12\<rparr>\<rparr>)
          = Inr ((60, 10), c2')
     \<and> fuzzy_logic_controller c1' = Inr ((60, 10), c1'')"
proof -
  let ?c2 = "front_car\<lparr>angle := 35,
             steering := (steering front_car)\<lparr>sim_input := (\<lambda>i. Some 7), sim_output := Some 12\<rparr>\<rparr>"
  have a: "setup_fuzzy_control 7 = Inr \<lparr>ctrl = fuzzy_system 7, sim_input = Map.empty, sim_output = None\<rparr>"
    by (rule setup_fuzzy_control_eq)
  have b: "ctrl (steering front_car) = ctrl \<lparr>ctrl = fuzzy_system 7, sim_input = Map.empty, sim_output = None\<rparr>"
    by (simp add: front_car_facts)
  have c: "ctrl (steering ?c2) = ctrl \<lparr>ctrl = fuzzy_system 7, sim_input = Map.empty, sim_output = None\<rparr>"
    by (simp add: front_car_facts)
  have d: "length (distances front_car) = 7" "distances ?c2 = distances front_car"
    "speed ?c2 = speed front_car"
    by (simp_all add: front_car_facts)
  from decision_deterministic [OF a b c d] obtain res c1' c2' c1'' where
    r: "fuzzy_logic_controller front_car = Inr (res, c1')"
      "fuzzy_logic_controller ?c2 = Inr (res, c2')"
      "fuzzy_logic_controller c1' = Inr (res, c1'')"
    by blast
  from r(1) front_car_decision have "res = (60, 10)" by auto
  with r show ?thesis by blast
qed

text \<open>
  Claim C8. When the distances have one entry per ray, every successful collision check
  leaves one entry per ray, each between 0 and the maximum range; the property is kept
  by every tick (\<^verbatim>\<open>update\<close>, in manual and in autopilot mode) and holds for the car
  that the constructor builds.
\<close>

theorem distances_invariant:
  "(length (distances c) = rays \<and> check_collision pg rays spread scr c = Inr (scr1, c1)
      \<longrightarrow> distances_ok rays c1)
   \<and> (distances_ok rays c \<and> update pg rays spread ks scr c = Inr (scr2, c2)
      \<longrightarrow> distances_ok rays c2)
   \<and> (car_init pg rays img pos = Inr c0 \<longrightarrow> distances_ok rays c0)"
proof (intro conjI impI)
  assume "length (distances c) = rays \<and> check_collision pg rays spread scr c = Inr (scr1, c1)"
  then show "distances_ok rays c1"
    using check_collision_post [of c rays pg spread scr scr1 c1] by simp
next
  assume h: "distances_ok rays c \<and> update pg rays spread ks scr c = Inr (scr2, c2)"
  let ?c = "if K_SPACE ks then c\<lparr>autopilot := \<not> autopilot c\<rparr> else c"
  from h have ok: "distances_ok rays ?c"
    by (simp add: distances_ok_def)
  show "distances_ok rays c2"
  proof (cases "autopilot ?c")
    case False
    with h have "c2 = update_manual pg ks ?c"
      by (simp add: update_def Let_def)
    with ok show ?thesis
      by (simp add: distances_ok_def update_manual_frame)
  next
    case True
    with h have "update_autopilot pg rays spread scr ?c = Inr (scr2, c2)"
      by (simp add: update_def Let_def)
    from update_autopilot_Inr [OF this] obtain scr' c' delta s c'' where
      a: "check_collision pg rays spread scr ?c = Inr (scr', c')"
      and b: "fuzzy_logic_controller c' = Inr ((delta, s), c'')"
      and d: "distances c2 = distances c''"
      by blast
    from ok have "length (distances ?c) = rays"
      by (simp add: distances_ok_def)
    from check_collision_post [OF this a] have "distances_ok rays c'" by simp
    moreover from controller_frame [OF b] have "distances c'' = distances c'"
      by (metis car.select_convs(7) car.surjective car.update_convs(8))
    ultimately show ?thesis
      using d by (simp add: distances_ok_def)
  qed
next
  assume "car_init pg rays img pos = Inr c0"
  then show "distances_ok rays c0"
    by (auto simp add: car_init_def setup_fuzzy_control_eq bind_err_def distances_ok_def
        max_distance_default_def list_all_iff)
qed

theorem distances_invariant_witness:
  "(\<exists>scr1 c1. length (distances start_car) = 7
       \<and> check_collision plain_pygame 7 SPREAD dark_screen start_car = Inr (scr1, c1)
       \<and> distances_ok 7 c1)
   \<and> (\<exists>scr2 c2. distances_ok 7 start_car
       \<and> update plain_pygame 7 SPREAD space_pressed dark_screen start_car = Inr (scr2, c2)
       \<and> distances_ok 7 c2)
   \<and> car_init plain_pygame 7 () (500, 400) = Inr start_car \<and> distances_ok 7 start_car"
proof -
  have n: "(7::nat) \<noteq> 1" by simp
  from check_collision_total [OF n, of start_car plain_pygame SPREAD dark_screen]
  obtain scr1 c1 where
    a: "check_collision plain_pygame 7 SPREAD dark_screen start_car = Inr (scr1, c1)"
    by (auto simp add: start_car_facts)
  let ?c = "start_car\<lparr>autopilot := True\<rparr>"
  have "length (distances ?c) = 7" "ctrl (steering ?c) = fuzzy_system 7"
    by (simp_all add: start_car_def)
  from update_autopilot_total [OF n this, of plain_pygame SPREAD dark_screen]
  obtain scr2 c2 where
    "update_autopilot plain_pygame 7 SPREAD dark_screen ?c = Inr (scr2, c2)"
    by blast
  then have b: "update plain_pygame 7 SPREAD space_pressed dark_screen start_car = Inr (scr2, c2)"
    by (simp add: update_def Let_def space_pressed_def start_car_facts)
  have i: "car_init plain_pygame 7 () (500, 400) = Inr start_car"
    using car_init_start by (simp add: RAYS_def)
  from distances_invariant [where c = start_car and rays = 7 and pg = plain_pygame
      and spread = SPREAD and scr = dark_screen and ?scr1.0 = scr1 and ?c1.0 = c1
      and ks = space_pressed and ?scr2.0 = scr2 and ?c2.0 = c2 and img = "()"
      and pos = "(500, 400)" and ?c0.0 = start_car] a b i
  show ?thesis
    by (simp add: start_car_facts)
qed

text \<open>
  Claim C9. The decision step leaves speed, heading, rectangle, distances and autopilot
  flag of the car as they were and returns the stored speed. In a tick that runs on
  autopilot the heading is still the old one after the decision step, and the tick sets
  it to the old heading plus the steering value.
\<close>

theorem controller_frame_and_update:
  "(fuzzy_logic_controller c = Inr ((steering_delta, s), c')
      \<longrightarrow> speed c' = speed c \<and> angle c' = angle c \<and> rect c' = rect c
          \<and> distances c' = distances c \<and> autopilot c' = autopilot c \<and> s = speed c)
   \<and> (autopilot c \<noteq> K_SPACE ks \<and> update pg rays spread ks scr c = Inr (scr2, c2)
      \<longrightarrow> (\<exists>scr1 c1 delta s1 c1'.
             check_collision pg rays spread scr (c\<lparr>autopilot := True\<rparr>) = Inr (scr1, c1)
           \<and> fuzzy_logic_controller c1 = Inr ((delta, s1), c1')
           \<and> angle c1' = angle c
           \<and> angle c2 = angle c + delta))"
proof (rule conjI; rule impI)
  assume a: "fuzzy_logic_controller c = Inr ((steering_delta, s), c')"
  from controller_frame [OF a] have f: "c' = c\<lparr>steering := steering c'\<rparr>" and "s = speed c"
    by simp_all
  moreover from f have "speed c' = speed c \<and> angle c' = angle c \<and> rect c' = rect c
     \<and> distances c' = distances c \<and> autopilot c' = autopilot c"
    by (metis car.select_convs(3,4,5,6,7) car.surjective car.update_convs(8))
  ultimately show "speed c' = speed c \<and> angle c' = angle c \<and> rect c' = rect c
          \<and> distances c' = distances c \<and> autopilot c' = autopilot c \<and> s = speed c"
    by simp
next
  let ?c = "c\<lparr>autopilot := True\<rparr>"
  assume h: "autopilot c \<noteq> K_SPACE ks \<and> update pg rays spread ks scr c = Inr (scr2, c2)"
  then have "(if K_SPACE ks then c\<lparr>autopilot := \<not> autopilot c\<rparr> else c) = ?c"
    by auto
  with h have "update_autopilot pg rays spread scr ?c = Inr (scr2, c2)"
    by (simp add: update_def Let_def)
  from update_autopilot_Inr [OF this] obtain scr1 c1 delta s1 c1' where
    a: "check_collision pg rays spread scr ?c = Inr (scr1, c1)"
    and b: "fuzzy_logic_controller c1 = Inr ((delta, s1), c1')"
    and d: "angle c2 = angle c1' + delta"
    by blast
  from a have "check_collision_loop pg rays spread [0..<rays] (scr, ?c) = Inr (scr1, c1)"
    by (simp add: check_collision_def)
  from check_collision_loop_inv [OF this] have "c1 = ?c\<lparr>distances := distances c1\<rparr>"
    by simp
  then have "angle c1 = angle ?c"
    by (metis car.select_convs(5) car.surjective car.update_convs(7))
  moreover from controller_frame [OF b] have "c1' = c1\<lparr>steering := steering c1'\<rparr>"
    by simp
  then have "angle c1' = angle c1"
    by (metis car.select_convs(5) car.surjective car.update_convs(8))
  ultimately have "angle c1' = angle c" by simp
  with a b d show "\<exists>scr1 c1 delta s1 c1'.
             check_collision pg rays spread scr ?c = Inr (scr1, c1)
           \<and> fuzzy_logic_controller c1 = Inr ((delta, s1), c1')
           \<and> angle c1' = angle c
           \<and> angle c2 = angle c + delta"
    by auto
qed

theorem controller_frame_and_update_witness:
  "(\<exists>c'. fuzzy_logic_controller front_car = Inr ((60, 10), c')
       \<and> speed c' = 10 \<and> angle c' = 0 \<and> rect c' = rect front_car
       \<and> distances c' = front_distances \<and> \<not> autopilot c')
   \<and> autopilot start_car \<noteq> K_SPACE space_pressed
   \<and> (\<exists>scr2 c2 scr1 c1 delta s1 c1'.
         update plain_pygame 7 SPREAD space_pressed dark_screen start_car = Inr (scr2, c2)
       \<and> check_collision plain_pygame 7 SPREAD dark_screen (start_car\<lparr>autopilot := True\<rparr>)
            = Inr (scr1, c1)
       \<and> fuzzy_logic_controller c1 = Inr ((delta, s1), c1')
       \<and> angle c1' = 0 \<and> angle c2 = 0 + delta)"
proof -
  from front_car_decision obtain c' where
    a: "fuzzy_logic_controller front_car = Inr ((60, 10), c')"
    by blast
  have n: "(7::nat) \<noteq> 1" by simp
  let ?c = "start_car\<lparr>autopilot := True\<rparr>"
  have "length (distances ?c) = 7" "ctrl (steering ?c) = fuzzy_system 7"
    by (simp_all add: start_car_def)
  from update_autopilot_total [OF n this, of plain_pygame SPREAD dark_screen]
  obtain scr2 c2 where
    "update_autopilot plain_pygame 7 SPREAD dark_screen ?c = Inr (scr2, c2)"
    by blast
  then have b: "update plain_pygame 7 SPREAD space_pressed dark_screen start_car = Inr (scr2, c2)"
    by (simp add: update_def Let_def space_pressed_def start_car_facts)
  have k: "autopilot start_car \<noteq> K_SPACE space_pressed"
    by (simp add: start_car_facts space_pressed_def)
  from controller_frame_and_update [where c = front_car and steering_delta = 60 and s = 10
      and c' = c'] a
  have p1: "speed c' = 10 \<and> angle c' = 0 \<and> rect c' = rect front_car
       \<and> distances c' = front_distances \<and> \<not> autopilot c'"
    by (simp add: front_car_facts)
  from controller_frame_and_update [where c = start_car and pg = plain_pygame and rays = 7
      and spread = SPREAD and scr = dark_screen and ks = space_pressed
      and ?scr2.0 = scr2 and ?c2.0 = c2] b k
  have p2: "\<exists>scr1 c1 delta s1 c1'.
         check_collision plain_pygame 7 SPREAD dark_screen ?c = Inr (scr1, c1)
       \<and> fuzzy_logic_controller c1 = Inr ((delta, s1), c1')
       \<and> angle c1' = 0 \<and> angle c2 = 0 + delta"
    by (simp add: start_car_facts)
  from a p1 b p2 k show ?thesis by blast
qed

end
